theory Spec2Isabelle
  imports Complex_Main "HOL-Library.Word"
begin

section \<open>The Android external view embedder\<close>

text \<open>
  A shallow embedding of
  \<^verbatim>\<open>shell/platform/android/external_view_embedder/external_view_embedder.cc\<close>.
  Every member function of \<^verbatim>\<open>AndroidExternalViewEmbedder\<close> becomes a function from
  the embedder's fields (a record) to the updated fields, together with the list of
  calls the function makes on its collaborators (the background canvas, the host
  through JNI, the raster thread merger, the surface pool), in program order.
  A failed \<^verbatim>\<open>std::unordered_map::at\<close> or \<^verbatim>\<open>FML_CHECK\<close> ends the process; it is
  the \<open>Inl\<close> branch of a sum.
\<close>

subsection \<open>Scalars\<close>

text \<open>
  Skia's \<^verbatim>\<open>SkScalar\<close> is a single-precision float, and the device pixel ratio is a
  double. A scalar is an IEEE 754 value: a finite number, an infinity or NaN. The two
  zeros are one value: the embedder never divides, and no comparison tells them
  apart. Both precisions share the type; an operation rounds its exact result to the
  precision it computes in, to nearest with ties to even.
\<close>

datatype scalar = Finite real | PosInf | NegInf | NaN

definition round_half_even :: "real \<Rightarrow> int" where
  "round_half_even x =
     (let f = \<lfloor>x\<rfloor>; d = x - of_int f
      in if d < 1 / 2 then f else if 1 / 2 < d then f + 1 else if even f then f else f + 1)"

text \<open>
  A binary format has \<open>p\<close> significand bits, and the exponent of its last place runs
  from \<open>lo\<close> (the subnormals) to \<open>hi\<close>. The search finds the exponent of the last
  place for \<open>x\<close>: the least \<open>e\<close> from \<open>lo\<close> on with \<open>\<bar>x\<bar> < 2 ^ (e + p)\<close>.
\<close>

fun ulp_search :: "nat \<Rightarrow> nat \<Rightarrow> int \<Rightarrow> real \<Rightarrow> int" where
  "ulp_search 0 p e x = e"
| "ulp_search (Suc n) p e x =
     (if \<bar>x\<bar> < power_int 2 (e + int p) then e else ulp_search n p (e + 1) x)"

definition round_to_format :: "nat \<Rightarrow> int \<Rightarrow> int \<Rightarrow> real \<Rightarrow> scalar" where
  "round_to_format p lo hi x =
     (let e = ulp_search (nat (hi - lo + 1)) p lo x;
          y = of_int (round_half_even (x / power_int 2 e)) * power_int 2 e
      in if (2 ^ p - 1) * power_int 2 hi < \<bar>y\<bar>
         then (if 0 < x then PosInf else NegInf)
         else Finite y)"

text \<open>Single precision (binary32) and double precision (binary64).\<close>

definition round32 :: "real \<Rightarrow> scalar" where
  "round32 = round_to_format 24 (- 149) 104"

definition round64 :: "real \<Rightarrow> scalar" where
  "round64 = round_to_format 53 (- 1074) 971"

text \<open>The values of a format are the reals that rounding leaves alone.\<close>

definition representable :: "nat \<Rightarrow> int \<Rightarrow> int \<Rightarrow> real \<Rightarrow> bool" where
  "representable p lo hi x =
     (\<exists>m e. x = of_int m * power_int 2 e \<and> \<bar>m\<bar> < 2 ^ p \<and> lo \<le> e \<and> e \<le> hi)"

definition representable32 :: "real \<Rightarrow> bool" where
  "representable32 = representable 24 (- 149) 104"

fun is_float :: "scalar \<Rightarrow> bool" where
  "is_float (Finite x) = (round32 x = Finite x)"
| "is_float s = True"

text \<open>The comparisons \<^verbatim>\<open><\<close>, \<^verbatim>\<open><=\<close> and \<^verbatim>\<open>==\<close>: false when an operand is NaN.\<close>

fun flt :: "scalar \<Rightarrow> scalar \<Rightarrow> bool" where
  "flt (Finite x) (Finite y) = (x < y)"
| "flt (Finite x) PosInf = True"
| "flt NegInf (Finite y) = True"
| "flt NegInf PosInf = True"
| "flt a b = False"

fun fle :: "scalar \<Rightarrow> scalar \<Rightarrow> bool" where
  "fle (Finite x) (Finite y) = (x \<le> y)"
| "fle NaN b = False"
| "fle a NaN = False"
| "fle NegInf b = True"
| "fle a PosInf = True"
| "fle a b = False"

fun feq :: "scalar \<Rightarrow> scalar \<Rightarrow> bool" where
  "feq NaN b = False"
| "feq a NaN = False"
| "feq a b = (a = b)"

text \<open>\<^verbatim>\<open>std::min\<close> and \<^verbatim>\<open>std::max\<close>, which return their first argument unless the
  comparison says otherwise.\<close>

definition fmin :: "scalar \<Rightarrow> scalar \<Rightarrow> scalar" where
  "fmin a b = (if flt b a then b else a)"

definition fmax :: "scalar \<Rightarrow> scalar \<Rightarrow> scalar" where
  "fmax a b = (if flt a b then b else a)"

fun fneg :: "scalar \<Rightarrow> scalar" where
  "fneg (Finite x) = Finite (- x)"
| "fneg PosInf = NegInf"
| "fneg NegInf = PosInf"
| "fneg NaN = NaN"

text \<open>Addition, subtraction and multiplication, rounded by \<open>rnd\<close>.\<close>

fun fadd :: "(real \<Rightarrow> scalar) \<Rightarrow> scalar \<Rightarrow> scalar \<Rightarrow> scalar" where
  "fadd rnd (Finite x) (Finite y) = rnd (x + y)"
| "fadd rnd NaN b = NaN"
| "fadd rnd a NaN = NaN"
| "fadd rnd PosInf NegInf = NaN"
| "fadd rnd NegInf PosInf = NaN"
| "fadd rnd PosInf b = PosInf"
| "fadd rnd a PosInf = PosInf"
| "fadd rnd NegInf b = NegInf"
| "fadd rnd a NegInf = NegInf"

definition fsub :: "(real \<Rightarrow> scalar) \<Rightarrow> scalar \<Rightarrow> scalar \<Rightarrow> scalar" where
  "fsub rnd a b = fadd rnd a (fneg b)"

fun fmul :: "(real \<Rightarrow> scalar) \<Rightarrow> scalar \<Rightarrow> scalar \<Rightarrow> scalar" where
  "fmul rnd (Finite x) (Finite y) = rnd (x * y)"
| "fmul rnd NaN b = NaN"
| "fmul rnd a NaN = NaN"
| "fmul rnd a b =
     (if a = Finite 0 \<or> b = Finite 0 then NaN
      else if flt a (Finite 0) = flt b (Finite 0) then PosInf else NegInf)"

text \<open>The conversion of a double to a float, and of an \<^verbatim>\<open>int\<close> to a float.\<close>

fun to_float :: "scalar \<Rightarrow> scalar" where
  "to_float (Finite x) = round32 x"
| "to_float s = s"

definition SkIntToScalar :: "int \<Rightarrow> scalar" where
  "SkIntToScalar n = round32 (of_int n)"

text \<open>
  \<^verbatim>\<open>sk_float_floor\<close>, \<^verbatim>\<open>sk_float_ceil\<close> and \<^verbatim>\<open>sk_float_saturate2int\<close>. The last one
  pins its argument between the least and the greatest \<^verbatim>\<open>int\<close> that are floats,
  NaN going to the greatest, and then converts; what it converts is always finite.
\<close>

fun sk_float_floor :: "scalar \<Rightarrow> scalar" where
  "sk_float_floor (Finite x) = Finite (of_int \<lfloor>x\<rfloor>)"
| "sk_float_floor s = s"

fun sk_float_ceil :: "scalar \<Rightarrow> scalar" where
  "sk_float_ceil (Finite x) = Finite (of_int \<lceil>x\<rceil>)"
| "sk_float_ceil s = s"

definition SK_MaxS32FitsInFloat :: int where
  "SK_MaxS32FitsInFloat = 2147483520"

definition SK_MinS32FitsInFloat :: int where
  "SK_MinS32FitsInFloat = - SK_MaxS32FitsInFloat"

fun truncate_to_int :: "scalar \<Rightarrow> int" where
  "truncate_to_int (Finite x) = (if 0 \<le> x then \<lfloor>x\<rfloor> else \<lceil>x\<rceil>)"
| "truncate_to_int s = 0"

definition sk_float_saturate2int :: "scalar \<Rightarrow> int" where
  "sk_float_saturate2int x =
     (let x1 = (if flt x (Finite (of_int SK_MaxS32FitsInFloat)) then x
                else Finite (of_int SK_MaxS32FitsInFloat));
          x2 = (if flt (Finite (of_int SK_MinS32FitsInFloat)) x1 then x1
                else Finite (of_int SK_MinS32FitsInFloat))
      in truncate_to_int x2)"

definition sk_float_floor2int :: "scalar \<Rightarrow> int" where
  "sk_float_floor2int x = sk_float_saturate2int (sk_float_floor x)"

definition sk_float_ceil2int :: "scalar \<Rightarrow> int" where
  "sk_float_ceil2int x = sk_float_saturate2int (sk_float_ceil x)"

subsection \<open>Geometry\<close>

text \<open>
  \<^verbatim>\<open>SkRect\<close>, \<^verbatim>\<open>SkIRect\<close>, \<^verbatim>\<open>SkSize\<close> and \<^verbatim>\<open>SkISize\<close> belong to the Skia library.
  The operations are the ones the embedder calls. The integers of \<^verbatim>\<open>SkIRect\<close> and
  \<^verbatim>\<open>SkISize\<close> are 32-bit; the only ones computed here come out of
  \<^verbatim>\<open>sk_float_saturate2int\<close> and stay in range.
\<close>

record SkRect =
  fLeft :: scalar
  fTop :: scalar
  fRight :: scalar
  fBottom :: scalar

record SkIRect =
  iLeft :: int
  iTop :: int
  iRight :: int
  iBottom :: int

record SkSize =
  fWidth :: scalar
  fHeight :: scalar

record SkISize =
  iWidth :: int
  iHeight :: int

definition MakeLTRB :: "scalar \<Rightarrow> scalar \<Rightarrow> scalar \<Rightarrow> scalar \<Rightarrow> SkRect" where
  "MakeLTRB l t r b = \<lparr>fLeft = l, fTop = t, fRight = r, fBottom = b\<rparr>"

definition MakeXYWH :: "scalar \<Rightarrow> scalar \<Rightarrow> scalar \<Rightarrow> scalar \<Rightarrow> SkRect" where
  "MakeXYWH x y w h = MakeLTRB x y (fadd round32 x w) (fadd round32 y h)"

definition MakeEmpty :: SkRect where
  "MakeEmpty = MakeLTRB (Finite 0) (Finite 0) (Finite 0) (Finite 0)"

definition Make :: "SkISize \<Rightarrow> SkRect" where
  "Make sz = MakeLTRB (Finite 0) (Finite 0) (SkIntToScalar (iWidth sz)) (SkIntToScalar (iHeight sz))"

definition rect_x :: "SkRect \<Rightarrow> scalar" where
  "rect_x r = fLeft r"

definition rect_y :: "SkRect \<Rightarrow> scalar" where
  "rect_y r = fTop r"

definition rect_width :: "SkRect \<Rightarrow> scalar" where
  "rect_width r = fsub round32 (fRight r) (fLeft r)"

definition rect_height :: "SkRect \<Rightarrow> scalar" where
  "rect_height r = fsub round32 (fBottom r) (fTop r)"

definition isEmpty :: "SkRect \<Rightarrow> bool" where
  "isEmpty r = (\<not> (flt (fLeft r) (fRight r) \<and> flt (fTop r) (fBottom r)))"

text \<open>
  \<^verbatim>\<open>SkRect::join\<close>: an empty argument is ignored, an empty receiver is replaced, and
  otherwise each edge moves outward to the argument's edge.
\<close>

definition join :: "SkRect \<Rightarrow> SkRect \<Rightarrow> SkRect" where
  "join this r =
     (if isEmpty r then this
      else if isEmpty this then r
      else MakeLTRB (fmin (fLeft this) (fLeft r)) (fmin (fTop this) (fTop r))
                    (fmax (fRight this) (fRight r)) (fmax (fBottom this) (fBottom r)))"

text \<open>
  \<^verbatim>\<open>rect.roundOut()\<close> gives an integer rectangle: the left and top edges go down to
  the next integer, the right and bottom edges go up, each pinned to the range of
  \<^verbatim>\<open>sk_float_saturate2int\<close>. \<^verbatim>\<open>rect.set(irect)\<close> converts the four integers back.
  The source's comment gives the example \<open>{0.3, 0.5, 3.1, 4.7}\<close> becomes
  \<open>{0, 0, 4, 5}\<close>.
\<close>

definition roundOut :: "SkRect \<Rightarrow> SkIRect" where
  "roundOut r =
     \<lparr>iLeft = sk_float_floor2int (fLeft r), iTop = sk_float_floor2int (fTop r),
      iRight = sk_float_ceil2int (fRight r), iBottom = sk_float_ceil2int (fBottom r)\<rparr>"

definition set_rect :: "SkIRect \<Rightarrow> SkRect" where
  "set_rect src =
     MakeLTRB (SkIntToScalar (iLeft src)) (SkIntToScalar (iTop src))
              (SkIntToScalar (iRight src)) (SkIntToScalar (iBottom src))"

text \<open>\<^verbatim>\<open>operator==\<close> on rectangles and sizes compares the scalars one by one.\<close>

definition rect_equal :: "SkRect \<Rightarrow> SkRect \<Rightarrow> bool" where
  "rect_equal a b =
     (feq (fLeft a) (fLeft b) \<and> feq (fTop a) (fTop b) \<and>
      feq (fRight a) (fRight b) \<and> feq (fBottom a) (fBottom b))"

definition size_equal :: "SkSize \<Rightarrow> SkSize \<Rightarrow> bool" where
  "size_equal a b = (feq (fWidth a) (fWidth b) \<and> feq (fHeight a) (fHeight b))"

text \<open>
  What the claims say of a rounded rectangle: its four edges are integers, and it
  contains the rectangle it was rounded from.
\<close>

fun is_integer :: "scalar \<Rightarrow> bool" where
  "is_integer (Finite x) = (of_int \<lfloor>x\<rfloor> = x)"
| "is_integer s = False"

definition integer_aligned :: "SkRect \<Rightarrow> bool" where
  "integer_aligned r =
     (is_integer (fLeft r) \<and> is_integer (fTop r) \<and> is_integer (fRight r) \<and> is_integer (fBottom r))"

definition contains_rect :: "SkRect \<Rightarrow> SkRect \<Rightarrow> bool" where
  "contains_rect outer inner =
     (fle (fLeft outer) (fLeft inner) \<and> fle (fTop outer) (fTop inner) \<and>
      fle (fRight inner) (fRight outer) \<and> fle (fBottom inner) (fBottom outer))"

text \<open>
  A rectangle of floats, and one whose edges \<^verbatim>\<open>sk_float_saturate2int\<close> does not pin:
  left and top not below the least integer of the range, right and bottom not above
  the greatest.
\<close>

definition float_rect :: "SkRect \<Rightarrow> bool" where
  "float_rect r = (is_float (fLeft r) \<and> is_float (fTop r) \<and> is_float (fRight r) \<and> is_float (fBottom r))"

definition within_int_range :: "SkRect \<Rightarrow> bool" where
  "within_int_range r =
     (fle (Finite (of_int SK_MinS32FitsInFloat)) (fLeft r) \<and>
      fle (Finite (of_int SK_MinS32FitsInFloat)) (fTop r) \<and>
      fle (fRight r) (Finite (of_int SK_MaxS32FitsInFloat)) \<and>
      fle (fBottom r) (Finite (of_int SK_MaxS32FitsInFloat)))"

subsection \<open>Collaborators\<close>

text \<open>
  View ids: \<^verbatim>\<open>PrerollCompositeEmbeddedView\<close> and \<^verbatim>\<open>GetViewRect\<close> take an \<^verbatim>\<open>int\<close>,
  the containers are keyed by \<^verbatim>\<open>int64_t\<close>. The conversions are written out:
  \<open>scast\<close> widens with the sign, \<open>ucast\<close> keeps the low 32 bits.
\<close>

type_synonym view_id = "64 word"

text \<open>
  Modelled from the spec: \<^verbatim>\<open>EmbeddedViewParams\<close> is declared in
  \<^verbatim>\<open>flow/embedded_views.h\<close>, which is not part of the sources at hand. The spec's
  ViewParams is a value-comparable descriptor of a position offset (the origin of the
  final bounding rectangle), a logical size, and an opaque transform/clip descriptor.
\<close>

record EmbeddedViewParams =
  finalBoundingRect :: SkRect
  sizePoints :: SkSize
  mutatorsStack :: "nat list"

definition params_equal :: "EmbeddedViewParams \<Rightarrow> EmbeddedViewParams \<Rightarrow> bool" where
  "params_equal a b =
     (size_equal (sizePoints a) (sizePoints b) \<and> mutatorsStack a = mutatorsStack b \<and>
      rect_equal (finalBoundingRect a) (finalBoundingRect b))"

text \<open>
  An immutable content snapshot. The drawing primitives are out of scope; a snapshot
  is the list of the primitives' opaque identities.
\<close>

datatype SkPicture = SkPicture "nat list"

text \<open>
  A picture recorder is Skia's. It is represented by the region it was opened on and
  by what \<^verbatim>\<open>finishRecordingAsPicture\<close> yields for it, \<open>None\<close> being the null
  \<^verbatim>\<open>sk_sp\<close> that \<^verbatim>\<open>FML_CHECK(picture)\<close> rejects.
\<close>

record SkPictureRecorder =
  cullRect :: SkRect
  finishRecordingAsPicture :: "SkPicture option"

definition beginRecording :: "SkRect \<Rightarrow> SkPictureRecorder" where
  "beginRecording bounds = \<lparr>cullRect = bounds, finishRecordingAsPicture = Some (SkPicture [])\<rparr>"

text \<open>
  Modelled from the spec: the r-tree (\<^verbatim>\<open>flow/rtree.cc\<close>) is not part of the sources
  at hand, and the spec treats it as an opaque spatial index with a single query.
  An index is represented by that query, \<^verbatim>\<open>searchNonOverlappingDrawnRects\<close>: it maps
  a rectangle to the list of rectangles it returns. A fresh index has recorded nothing.
\<close>

type_synonym RTree = "SkRect \<Rightarrow> SkRect list"

definition getInstance :: RTree where
  "getInstance = (\<lambda>_. [])"

definition searchNonOverlappingDrawnRects :: "RTree \<Rightarrow> SkRect \<Rightarrow> SkRect list" where
  "searchNonOverlappingDrawnRects rtree query = rtree query"

text \<open>
  Modelled from the spec: the surface pool (\<^verbatim>\<open>SurfacePool\<close>) is not part of the
  sources at hand. By the spec it holds every overlay layer created so far, each
  either in use or free; \<open>GetLayer\<close> returns a free layer created earlier if there is
  one, adapted to the requested drawing context, and otherwise creates and registers
  a new one; \<open>RecycleLayers\<close> marks every layer free and destroys none.
  A layer created by the pool is identified by its position in the pool.
\<close>

record OverlayLayer =
  layer_id :: nat
  gr_context :: nat
  in_use :: bool

type_synonym SurfacePool = "OverlayLayer list"

fun acquire_free :: "nat \<Rightarrow> OverlayLayer list \<Rightarrow> (OverlayLayer \<times> OverlayLayer list) option" where
  "acquire_free context [] = None"
| "acquire_free context (l # ls) =
     (if in_use l
      then (case acquire_free context ls of
              None \<Rightarrow> None
            | Some (got, ls') \<Rightarrow> Some (got, l # ls'))
      else (let got = l\<lparr>gr_context := context, in_use := True\<rparr> in Some (got, got # ls)))"

definition GetLayer :: "nat \<Rightarrow> SurfacePool \<Rightarrow> OverlayLayer \<times> SurfacePool" where
  "GetLayer context pool =
     (case acquire_free context pool of
        Some (got, pool') \<Rightarrow> (got, pool')
      | None \<Rightarrow>
          (let created = \<lparr>layer_id = length pool, gr_context = context, in_use = True\<rparr>
           in (created, pool @ [created])))"

definition RecycleLayers :: "SurfacePool \<Rightarrow> SurfacePool" where
  "RecycleLayers pool = map (\<lambda>l. l\<lparr>in_use := False\<rparr>) pool"

text \<open>
  The raster thread merger is consulted through four operations. The record holds
  what its two queries answer when the embedder asks.
\<close>

record RasterThreadMerger =
  IsMerged :: bool
  IsOnPlatformThread :: bool

text \<open>
  The calls the embedder makes on its collaborators, in program order: on the raster
  thread merger, on the host through the JNI facade, on the background canvas and the
  surface frame, and on the overlay surfaces. A call carries the scalars as the
  embedder's expressions compute them.
\<close>

datatype call =
    Merger_IsMerged
  | Merger_ExtendLeaseTo int
  | Merger_MergeWithLease int
  | Merger_IsOnPlatformThread
  | FlutterViewBeginFrame
  | FlutterViewEndFrame
  | FlutterViewOnDisplayPlatformView view_id scalar scalar scalar scalar
  | FlutterViewDisplayOverlaySurface nat scalar scalar scalar scalar
  | Background_save
  | Background_clipRect_kDifference SkRect
  | Background_drawPicture SkPicture
  | Background_restore
  | Frame_Submit
  | Pool_GetLayer nat nat
  | Overlay_AcquireFrame nat SkISize
  | Overlay_clear nat
  | Overlay_translate nat scalar scalar
  | Overlay_drawPicture nat SkPicture
  | Overlay_Submit nat

datatype fatal = out_of_range | check_failed

datatype PostPrerollResult = kSuccess | kResubmitFrame

subsection \<open>The embedder's fields\<close>

text \<open>
  The two constants \<^verbatim>\<open>kMaxLayerAllocations\<close> and \<^verbatim>\<open>kDefaultMergedLeaseDuration\<close>
  are defined in the header, which is not part of the sources at hand; they are fields
  of the record, never written.
\<close>

record AndroidExternalViewEmbedder =
  kMaxLayerAllocations :: nat
  kDefaultMergedLeaseDuration :: int
  frame_size :: SkISize
  device_pixel_ratio :: scalar
  view_rtrees :: "view_id \<rightharpoonup> RTree"
  picture_recorders :: "view_id \<rightharpoonup> SkPictureRecorder"
  composition_order :: "view_id list"
  view_params :: "view_id \<rightharpoonup> EmbeddedViewParams"
  should_run_rasterizer_on_platform_thread :: bool
  surface_pool :: SurfacePool

text \<open>\<^verbatim>\<open>std::unordered_map::at\<close> and \<^verbatim>\<open>insert\<close> (which keeps an existing entry).\<close>

definition at_key :: "('k \<rightharpoonup> 'v) \<Rightarrow> 'k \<Rightarrow> fatal + 'v" where
  "at_key m k = (case m k of None \<Rightarrow> Inl out_of_range | Some v \<Rightarrow> Inr v)"

definition insert_new :: "('k \<rightharpoonup> 'v) \<Rightarrow> 'k \<Rightarrow> 'v \<Rightarrow> ('k \<rightharpoonup> 'v)" where
  "insert_new m k v = (case m k of None \<Rightarrow> m(k \<mapsto> v) | Some _ \<Rightarrow> m)"

subsection \<open>Preroll, placement, frame boundaries\<close>

definition PrerollCompositeEmbeddedView ::
  "AndroidExternalViewEmbedder \<Rightarrow> 32 word \<Rightarrow> EmbeddedViewParams \<Rightarrow> AndroidExternalViewEmbedder" where
  "PrerollCompositeEmbeddedView s view_id params =
     (let k = (scast view_id :: view_id);
          s1 = s\<lparr>view_rtrees := (view_rtrees s)(k \<mapsto> getInstance)\<rparr>;
          s2 = s1\<lparr>picture_recorders :=
                    (picture_recorders s1)(k \<mapsto> beginRecording (Make (frame_size s1)))\<rparr>;
          s3 = s2\<lparr>composition_order := composition_order s2 @ [k]\<rparr>
      in if (case view_params s3 k of None \<Rightarrow> False | Some stored \<Rightarrow> params_equal stored params)
         then s3
         else s3\<lparr>view_params := (view_params s3)(k \<mapsto> params)\<rparr>)"

text \<open>
  \<^verbatim>\<open>GetViewRect\<close>. The width and height are products of a float and a double: they
  are computed in double precision and converted to float when they are passed on.
\<close>

definition GetViewRect :: "AndroidExternalViewEmbedder \<Rightarrow> 32 word \<Rightarrow> fatal + SkRect" where
  "GetViewRect s view_id =
     (case at_key (view_params s) (scast view_id) of
        Inl e \<Rightarrow> Inl e
      | Inr params \<Rightarrow>
          Inr (MakeXYWH (rect_x (finalBoundingRect params))
                        (rect_y (finalBoundingRect params))
                        (to_float (fmul round64 (fWidth (sizePoints params)) (device_pixel_ratio s)))
                        (to_float (fmul round64 (fHeight (sizePoints params)) (device_pixel_ratio s)))))"

definition Reset :: "AndroidExternalViewEmbedder \<Rightarrow> AndroidExternalViewEmbedder" where
  "Reset s = s\<lparr>composition_order := [], picture_recorders := Map.empty\<rparr>"

definition CancelFrame :: "AndroidExternalViewEmbedder \<Rightarrow> AndroidExternalViewEmbedder" where
  "CancelFrame s = Reset s"

definition BeginFrame ::
  "AndroidExternalViewEmbedder \<Rightarrow> SkISize \<Rightarrow> scalar \<Rightarrow> RasterThreadMerger
     \<Rightarrow> AndroidExternalViewEmbedder \<times> call list" where
  "BeginFrame s new_frame_size new_device_pixel_ratio raster_thread_merger =
     (let s1 = Reset s;
          s2 = s1\<lparr>frame_size := new_frame_size\<rparr>;
          s3 = s2\<lparr>device_pixel_ratio := new_device_pixel_ratio\<rparr>
      in (s3, Merger_IsOnPlatformThread #
              (if IsOnPlatformThread raster_thread_merger then [FlutterViewBeginFrame] else [])))"

definition PostPrerollAction ::
  "AndroidExternalViewEmbedder \<Rightarrow> RasterThreadMerger
     \<Rightarrow> PostPrerollResult \<times> AndroidExternalViewEmbedder \<times> call list" where
  "PostPrerollAction s raster_thread_merger =
     (let has_platform_views = (length (composition_order s) > 0)
      in if has_platform_views
         then (if IsMerged raster_thread_merger
               then (kSuccess, s,
                     [Merger_IsMerged, Merger_ExtendLeaseTo (kDefaultMergedLeaseDuration s)])
               else (kResubmitFrame,
                     CancelFrame (s\<lparr>should_run_rasterizer_on_platform_thread := True\<rparr>),
                     [Merger_IsMerged]))
         else (kSuccess, s, []))"

definition EndFrame ::
  "AndroidExternalViewEmbedder \<Rightarrow> bool \<Rightarrow> RasterThreadMerger
     \<Rightarrow> AndroidExternalViewEmbedder \<times> call list" where
  "EndFrame s should_resubmit_frame raster_thread_merger =
     (let (s1, calls1) =
            (if should_resubmit_frame \<and> should_run_rasterizer_on_platform_thread s
             then (s\<lparr>should_run_rasterizer_on_platform_thread := False\<rparr>,
                   [Merger_MergeWithLease (kDefaultMergedLeaseDuration s)])
             else (s, []));
          s2 = s1\<lparr>surface_pool := RecycleLayers (surface_pool s1)\<rparr>
      in (s2, calls1 @ Merger_IsOnPlatformThread #
              (if IsOnPlatformThread raster_thread_merger then [FlutterViewEndFrame] else [])))"

subsection \<open>SubmitFrame\<close>

text \<open>
  Lines 120 to 127: more than \<^verbatim>\<open>kMaxLayerAllocations\<close> rectangles are joined into
  one. The local \<^verbatim>\<open>SkRect joined_rect;\<close> is declared without an initialiser, and
  \<^verbatim>\<open>SkRect\<close> is a plain struct of four scalars, so the loop starts from whatever the
  variable holds. That value is the parameter \<open>joined_rect\<close>.
\<close>

definition limit_allocations :: "nat \<Rightarrow> SkRect \<Rightarrow> SkRect list \<Rightarrow> SkRect list" where
  "limit_allocations max_allocations joined_rect intersection_rects =
     (let allocation_size = length intersection_rects
      in if allocation_size > max_allocations
         then [foldl join joined_rect intersection_rects]
         else intersection_rects)"

text \<open>Lines 128 to 139: round each rectangle, record it for the slot, clip the background.\<close>

fun clip_intersection_rects ::
  "SkRect list \<Rightarrow> view_id \<Rightarrow> (view_id \<rightharpoonup> SkRect list)
     \<Rightarrow> fatal + ((view_id \<rightharpoonup> SkRect list) \<times> call list)" where
  "clip_intersection_rects [] view_id overlay_layers = Inr (overlay_layers, [])"
| "clip_intersection_rects (intersection_rect # rest) view_id overlay_layers =
     (let rounded = set_rect (roundOut intersection_rect)
      in case at_key overlay_layers view_id of
           Inl e \<Rightarrow> Inl e
         | Inr layers \<Rightarrow>
             (case clip_intersection_rects rest view_id
                     (overlay_layers(view_id \<mapsto> layers @ [rounded])) of
                Inl e \<Rightarrow> Inl e
              | Inr (overlay_layers', calls) \<Rightarrow>
                  Inr (overlay_layers', Background_clipRect_kDifference rounded # calls)))"

text \<open>
  Lines 108 to 140, the loop \<^verbatim>\<open>for (ssize_t j = i; j >= 0; j--)\<close>. The numeric
  argument is one more than the loop variable: \<open>Suc j\<close> runs the body for \<open>j\<close> and goes
  on downwards, \<open>0\<close> leaves the loop. \<open>joined_rect j\<close> is what the uninitialised local
  holds in the iteration for \<open>j\<close>. \<^verbatim>\<open>GetViewRect\<close> takes an \<^verbatim>\<open>int\<close>, so the 64-bit id
  is narrowed at the call.
\<close>

fun occlusion_queries ::
  "AndroidExternalViewEmbedder \<Rightarrow> (nat \<Rightarrow> SkRect) \<Rightarrow> RTree \<Rightarrow> view_id \<Rightarrow> nat
     \<Rightarrow> (view_id \<rightharpoonup> SkRect list) \<Rightarrow> fatal + ((view_id \<rightharpoonup> SkRect list) \<times> call list)" where
  "occlusion_queries s joined_rect rtree view_id 0 overlay_layers = Inr (overlay_layers, [])"
| "occlusion_queries s joined_rect rtree view_id (Suc j) overlay_layers =
     (let current_view_id = composition_order s ! j
      in case GetViewRect s (ucast current_view_id) of
           Inl e \<Rightarrow> Inl e
         | Inr current_view_rect \<Rightarrow>
             (let intersection_rects =
                    limit_allocations (kMaxLayerAllocations s) (joined_rect j)
                      (searchNonOverlappingDrawnRects rtree current_view_rect)
              in case clip_intersection_rects intersection_rects view_id overlay_layers of
                   Inl e \<Rightarrow> Inl e
                 | Inr (overlay_layers1, calls1) \<Rightarrow>
                     (case occlusion_queries s joined_rect rtree view_id j overlay_layers1 of
                        Inl e \<Rightarrow> Inl e
                      | Inr (overlay_layers2, calls2) \<Rightarrow> Inr (overlay_layers2, calls1 @ calls2))))"

text \<open>
  Lines 92 to 142, the loop over the slots; the list argument holds the values of \<open>i\<close>
  still to run. \<open>joined_rect i j\<close> is the content of the uninitialised local in the
  query of slot \<open>i\<close> against view \<open>j\<close>.
\<close>

fun composite_slots ::
  "AndroidExternalViewEmbedder \<Rightarrow> (nat \<Rightarrow> nat \<Rightarrow> SkRect) \<Rightarrow> nat list
     \<Rightarrow> (view_id \<rightharpoonup> SkPicture) \<Rightarrow> (view_id \<rightharpoonup> SkRect list)
     \<Rightarrow> fatal + ((view_id \<rightharpoonup> SkPicture) \<times> (view_id \<rightharpoonup> SkRect list) \<times> call list)" where
  "composite_slots s joined_rect [] pictures overlay_layers = Inr (pictures, overlay_layers, [])"
| "composite_slots s joined_rect (i # rest) pictures overlay_layers =
     (let view_id = composition_order s ! i
      in case at_key (picture_recorders s) view_id of
           Inl e \<Rightarrow> Inl e
         | Inr recorder \<Rightarrow>
             (case finishRecordingAsPicture recorder of
                None \<Rightarrow> Inl check_failed
              | Some picture \<Rightarrow>
                  (let pictures1 = insert_new pictures view_id picture;
                       overlay_layers1 = insert_new overlay_layers view_id []
                   in case at_key (view_rtrees s) view_id of
                        Inl e \<Rightarrow> Inl e
                      | Inr rtree \<Rightarrow>
                          (case occlusion_queries s (joined_rect i) rtree view_id (Suc i)
                                  overlay_layers1 of
                             Inl e \<Rightarrow> Inl e
                           | Inr (overlay_layers2, calls1) \<Rightarrow>
                               (case at_key pictures1 view_id of
                                  Inl e \<Rightarrow> Inl e
                                | Inr drawn \<Rightarrow>
                                    (case composite_slots s joined_rect rest pictures1
                                            overlay_layers2 of
                                       Inl e \<Rightarrow> Inl e
                                     | Inr (pictures3, overlay_layers3, calls3) \<Rightarrow>
                                         Inr (pictures3, overlay_layers3,
                                              calls1 @ Background_drawPicture drawn # calls3)))))))"

text \<open>
  \<^verbatim>\<open>CreateSurfaceIfNeeded\<close> returns the frame acquired from the layer's surface; the
  frame is identified by the layer's id.
\<close>

definition CreateSurfaceIfNeeded ::
  "AndroidExternalViewEmbedder \<Rightarrow> nat \<Rightarrow> view_id \<Rightarrow> SkPicture \<Rightarrow> SkRect
     \<Rightarrow> nat \<times> AndroidExternalViewEmbedder \<times> call list" where
  "CreateSurfaceIfNeeded s context view_id picture rect =
     (let (layer, pool) = GetLayer context (surface_pool s);
          s1 = s\<lparr>surface_pool := pool\<rparr>;
          frame = layer_id layer
      in (frame, s1,
          [Pool_GetLayer context (layer_id layer),
           Overlay_AcquireFrame (layer_id layer) (frame_size s1),
           FlutterViewDisplayOverlaySurface (layer_id layer)
             (rect_x rect) (rect_y rect) (rect_width rect) (rect_height rect),
           Overlay_clear frame,
           Overlay_translate frame (fneg (rect_x rect)) (fneg (rect_y rect)),
           Overlay_drawPicture frame picture]))"

text \<open>Lines 157 to 164, the loop over one slot's overlay rectangles.\<close>

fun submit_overlays ::
  "AndroidExternalViewEmbedder \<Rightarrow> nat \<Rightarrow> view_id \<Rightarrow> (view_id \<rightharpoonup> SkPicture) \<Rightarrow> SkRect list
     \<Rightarrow> fatal + (AndroidExternalViewEmbedder \<times> call list)" where
  "submit_overlays s context view_id pictures [] = Inr (s, [])"
| "submit_overlays s context view_id pictures (overlay_rect # rest) =
     (case at_key pictures view_id of
        Inl e \<Rightarrow> Inl e
      | Inr picture \<Rightarrow>
          (let (frame, s1, calls1) = CreateSurfaceIfNeeded s context view_id picture overlay_rect
           in case submit_overlays s1 context view_id pictures rest of
                Inl e \<Rightarrow> Inl e
              | Inr (s2, calls2) \<Rightarrow> Inr (s2, calls1 @ Overlay_Submit frame # calls2)))"

text \<open>Lines 147 to 165, the loop over the composition order.\<close>

fun display_views ::
  "AndroidExternalViewEmbedder \<Rightarrow> nat \<Rightarrow> (view_id \<rightharpoonup> SkPicture) \<Rightarrow> (view_id \<rightharpoonup> SkRect list)
     \<Rightarrow> view_id list \<Rightarrow> fatal + (AndroidExternalViewEmbedder \<times> call list)" where
  "display_views s context pictures overlay_layers [] = Inr (s, [])"
| "display_views s context pictures overlay_layers (view_id # rest) =
     (case GetViewRect s (ucast view_id) of
        Inl e \<Rightarrow> Inl e
      | Inr view_rect \<Rightarrow>
          (case at_key overlay_layers view_id of
             Inl e \<Rightarrow> Inl e
           | Inr overlay_rects \<Rightarrow>
               (case submit_overlays s context view_id pictures overlay_rects of
                  Inl e \<Rightarrow> Inl e
                | Inr (s1, calls1) \<Rightarrow>
                    (case display_views s1 context pictures overlay_layers rest of
                       Inl e \<Rightarrow> Inl e
                     | Inr (s2, calls2) \<Rightarrow>
                         Inr (s2,
                              FlutterViewOnDisplayPlatformView view_id
                                (rect_x view_rect) (rect_y view_rect)
                                (rect_width view_rect) (rect_height view_rect)
                              # calls1 @ calls2)))))"

text \<open>
  \<^verbatim>\<open>SubmitFrame\<close>. \<^verbatim>\<open>SkAutoCanvasRestore\<close> saves the background canvas where it is
  declared and restores it when the function is left.
\<close>

definition SubmitFrame ::
  "AndroidExternalViewEmbedder \<Rightarrow> (nat \<Rightarrow> nat \<Rightarrow> SkRect) \<Rightarrow> nat
     \<Rightarrow> fatal + (bool \<times> AndroidExternalViewEmbedder \<times> call list)" where
  "SubmitFrame s joined_rect context =
     (if should_run_rasterizer_on_platform_thread s
      then Inr (True, s, [])
      else (case composite_slots s joined_rect [0..<length (composition_order s)]
                   Map.empty Map.empty of
              Inl e \<Rightarrow> Inl e
            | Inr (pictures, overlay_layers, calls1) \<Rightarrow>
                (case display_views s context pictures overlay_layers (composition_order s) of
                   Inl e \<Rightarrow> Inl e
                 | Inr (s1, calls2) \<Rightarrow>
                     Inr (True, s1,
                          Background_save # calls1 @ Frame_Submit # calls2
                            @ [Background_restore]))))"

subsection \<open>Frames driven from outside\<close>

text \<open>A frame's preroll calls, applied in order.\<close>

fun prerolls ::
  "AndroidExternalViewEmbedder \<Rightarrow> (32 word \<times> EmbeddedViewParams) list
     \<Rightarrow> AndroidExternalViewEmbedder" where
  "prerolls s [] = s"
| "prerolls s ((view_id, params) # rest) =
     prerolls (PrerollCompositeEmbeddedView s view_id params) rest"

text \<open>
  Preroll as the spec words it, without the comparison: open a recording and an index
  for the slot, append the id, store the params.
\<close>

definition Preroll_updating_params ::
  "AndroidExternalViewEmbedder \<Rightarrow> 32 word \<Rightarrow> EmbeddedViewParams \<Rightarrow> AndroidExternalViewEmbedder" where
  "Preroll_updating_params s view_id params =
     s\<lparr>view_rtrees := (view_rtrees s)(scast view_id \<mapsto> getInstance),
       picture_recorders :=
         (picture_recorders s)(scast view_id \<mapsto> beginRecording (Make (frame_size s))),
       composition_order := composition_order s @ [scast view_id],
       view_params := (view_params s)(scast view_id \<mapsto> params)\<rparr>"

text \<open>A list of calls requests a merge when it holds a call of \<^verbatim>\<open>MergeWithLease\<close>.\<close>

fun is_merge_request :: "call \<Rightarrow> bool" where
  "is_merge_request (Merger_MergeWithLease lease) = True"
| "is_merge_request c = False"

definition requests_merge :: "call list \<Rightarrow> bool" where
  "requests_merge calls = list_ex is_merge_request calls"

subsection \<open>What a frame's occlusion queries return\<close>

text \<open>
  The rectangles that the query of slot \<open>i\<close> against view \<open>j\<close> hands to the rounding
  loop: what the slot's index returns for the view's placement rectangle, after the
  limit on their number has been applied and before any rounding.
\<close>

definition query_result ::
  "AndroidExternalViewEmbedder \<Rightarrow> (nat \<Rightarrow> nat \<Rightarrow> SkRect) \<Rightarrow> nat \<Rightarrow> nat \<Rightarrow> SkRect list" where
  "query_result s joined_rect i j =
     (case view_rtrees s (composition_order s ! i) of
        None \<Rightarrow> []
      | Some rtree \<Rightarrow>
          (case GetViewRect s (ucast (composition_order s ! j)) of
             Inl e \<Rightarrow> []
           | Inr current_view_rect \<Rightarrow>
               limit_allocations (kMaxLayerAllocations s) (joined_rect i j)
                 (searchNonOverlappingDrawnRects rtree current_view_rect)))"

text \<open>All queries of slot \<open>i\<close>, in the order the inner loop makes them (from \<open>i\<close> down to 0).\<close>

definition slot_query_results ::
  "AndroidExternalViewEmbedder \<Rightarrow> (nat \<Rightarrow> nat \<Rightarrow> SkRect) \<Rightarrow> nat \<Rightarrow> SkRect list" where
  "slot_query_results s joined_rect i = concat (map (query_result s joined_rect i) (rev [0..<Suc i]))"

text \<open>All queries of the frame, slot by slot.\<close>

definition frame_query_results ::
  "AndroidExternalViewEmbedder \<Rightarrow> (nat \<Rightarrow> nat \<Rightarrow> SkRect) \<Rightarrow> SkRect list" where
  "frame_query_results s joined_rect =
     concat (map (slot_query_results s joined_rect) [0..<length (composition_order s)])"

text \<open>What line 134 makes of a rectangle.\<close>

definition rounded_out :: "SkRect \<Rightarrow> SkRect" where
  "rounded_out r = set_rect (roundOut r)"

text \<open>The rectangles of the clip calls in a list of calls, in call order.\<close>

fun clip_rect_of :: "call \<Rightarrow> SkRect list" where
  "clip_rect_of (Background_clipRect_kDifference r) = [r]"
| "clip_rect_of c = []"

definition clipped_rects :: "call list \<Rightarrow> SkRect list" where
  "clipped_rects calls = concat (map clip_rect_of calls)"

text \<open>The placements (x, y, width, height) of the overlay surfaces in a list of calls.\<close>

fun overlay_placement_of :: "call \<Rightarrow> (scalar \<times> scalar \<times> scalar \<times> scalar) list" where
  "overlay_placement_of (FlutterViewDisplayOverlaySurface layer x y w h) = [(x, y, w, h)]"
| "overlay_placement_of c = []"

definition overlay_placements :: "call list \<Rightarrow> (scalar \<times> scalar \<times> scalar \<times> scalar) list" where
  "overlay_placements calls = concat (map overlay_placement_of calls)"

definition placement :: "SkRect \<Rightarrow> scalar \<times> scalar \<times> scalar \<times> scalar" where
  "placement r = (rect_x r, rect_y r, rect_width r, rect_height r)"

text \<open>Every rectangle recorded for some slot lies in the set \<open>X\<close>.\<close>

definition overlay_within :: "SkRect set \<Rightarrow> (view_id \<rightharpoonup> SkRect list) \<Rightarrow> bool" where
  "overlay_within X overlay_layers = (\<forall>k l. overlay_layers k = Some l \<longrightarrow> set l \<subseteq> X)"

text \<open>
  The union of rectangles, as the spec words the result of the collapse: the smallest
  rectangle that contains every non-empty one of them.
\<close>

definition union_of_rects :: "SkRect list \<Rightarrow> SkRect" where
  "union_of_rects rects =
     (case filter (\<lambda>r. \<not> isEmpty r) rects of
        [] \<Rightarrow> MakeEmpty
      | r # rs \<Rightarrow>
          MakeLTRB (fold (\<lambda>a b. fmin b a) (map fLeft rs) (fLeft r))
                   (fold (\<lambda>a b. fmin b a) (map fTop rs) (fTop r))
                   (fold (\<lambda>a b. fmax b a) (map fRight rs) (fRight r))
                   (fold (\<lambda>a b. fmax b a) (map fBottom rs) (fBottom r)))"

subsection \<open>Concrete frames\<close>

definition finite_rect :: "real \<Rightarrow> real \<Rightarrow> real \<Rightarrow> real \<Rightarrow> SkRect" where
  "finite_rect l t r b = MakeLTRB (Finite l) (Finite t) (Finite r) (Finite b)"

definition idle_embedder :: AndroidExternalViewEmbedder where
  "idle_embedder =
     \<lparr>kMaxLayerAllocations = 2, kDefaultMergedLeaseDuration = 10,
      frame_size = \<lparr>iWidth = 100, iHeight = 100\<rparr>, device_pixel_ratio = Finite 2,
      view_rtrees = Map.empty, picture_recorders = Map.empty, composition_order = [],
      view_params = Map.empty, should_run_rasterizer_on_platform_thread = False,
      surface_pool = []\<rparr>"

definition some_params :: EmbeddedViewParams where
  "some_params =
     \<lparr>finalBoundingRect = finite_rect 10 20 40 60,
      sizePoints = \<lparr>fWidth = Finite 30, fHeight = Finite 40\<rparr>, mutatorsStack = []\<rparr>"


definition one_view_embedder :: AndroidExternalViewEmbedder where
  "one_view_embedder = PrerollCompositeEmbeddedView idle_embedder 7 some_params"

definition unmerged :: RasterThreadMerger where
  "unmerged = \<lparr>IsMerged = False, IsOnPlatformThread = False\<rparr>"

definition merged :: RasterThreadMerger where
  "merged = \<lparr>IsMerged = True, IsOnPlatformThread = True\<rparr>"

definition awaiting_resubmit :: AndroidExternalViewEmbedder where
  "awaiting_resubmit = fst (snd (PostPrerollAction one_view_embedder unmerged))"

text \<open>
  An index over drawn rectangles that do not overlap: a query returns the ones that
  intersect it (\<^verbatim>\<open>SkRect::Intersects\<close>).
\<close>

definition intersects :: "SkRect \<Rightarrow> SkRect \<Rightarrow> bool" where
  "intersects a b =
     (flt (fmax (fLeft a) (fLeft b)) (fmin (fRight a) (fRight b)) \<and>
      flt (fmax (fTop a) (fTop b)) (fmin (fBottom a) (fBottom b)))"

definition recorded :: "SkRect list \<Rightarrow> RTree" where
  "recorded drawn = (\<lambda>query. filter (intersects query) drawn)"

text \<open>
  One view prerolled, placed at \<open>(10, 20, 70, 100)\<close>, and content drawn over it: one
  rectangle; three rectangles, which is more than \<^verbatim>\<open>kMaxLayerAllocations\<close>; one
  rectangle that reaches beyond the 32-bit integers. All coordinates are floats.
\<close>

definition drawn_one :: RTree where
  "drawn_one = recorded [finite_rect (61 / 4) (51 / 2) (145 / 8) (123 / 4)]"

definition drawn_three :: RTree where
  "drawn_three =
     recorded [finite_rect (41 / 4) (41 / 2) 13 (99 / 4), finite_rect 15 25 16 26,
               finite_rect 17 27 (37 / 2) (57 / 2)]"

definition drawn_far :: RTree where
  "drawn_far = recorded [finite_rect (61 / 4) (51 / 2) 3000000000 (123 / 4)]"

definition covered_embedder :: AndroidExternalViewEmbedder where
  "covered_embedder = one_view_embedder\<lparr>view_rtrees := [7 \<mapsto> drawn_one]\<rparr>"

definition crowded_embedder :: AndroidExternalViewEmbedder where
  "crowded_embedder = one_view_embedder\<lparr>view_rtrees := [7 \<mapsto> drawn_three]\<rparr>"

definition far_embedder :: AndroidExternalViewEmbedder where
  "far_embedder = one_view_embedder\<lparr>view_rtrees := [7 \<mapsto> drawn_far]\<rparr>"

text \<open>
  A \<^verbatim>\<open>joined_rect\<close> that happens to start out empty in every query, and the clip
  rectangles of a submitted frame.
\<close>

definition no_stale_rect :: "nat \<Rightarrow> nat \<Rightarrow> SkRect" where
  "no_stale_rect i j = MakeEmpty"

definition clips_submitted ::
  "fatal + bool \<times> AndroidExternalViewEmbedder \<times> call list \<Rightarrow> SkRect list" where
  "clips_submitted result =
     (case result of Inl e \<Rightarrow> [] | Inr (ok, s', calls) \<Rightarrow> clipped_rects calls)"

definition one_layer_pool :: SurfacePool where
  "one_layer_pool = [\<lparr>layer_id = 0, gr_context = 0, in_use = True\<rparr>]"

definition covered_calls :: "call list" where
  "covered_calls =
     [Background_save,
      Background_clipRect_kDifference (finite_rect 15 25 19 31),
      Background_drawPicture (SkPicture []),
      Frame_Submit,
      FlutterViewOnDisplayPlatformView 7 (Finite 10) (Finite 20) (Finite 60) (Finite 80),
      Pool_GetLayer 0 0,
      Overlay_AcquireFrame 0 \<lparr>iWidth = 100, iHeight = 100\<rparr>,
      FlutterViewDisplayOverlaySurface 0 (Finite 15) (Finite 25) (Finite 4) (Finite 6),
      Overlay_clear 0,
      Overlay_translate 0 (Finite (- 15)) (Finite (- 25)),
      Overlay_drawPicture 0 (SkPicture []),
      Overlay_Submit 0,
      Background_restore]"

section \<open>Properties\<close>

subsection \<open>Rounding to a format\<close>

lemma round_half_even_of_int: "round_half_even (of_int m) = m"
  by (simp add: round_half_even_def)

lemma ulp_search_bounds:
  "e \<le> ulp_search n p e x \<and> ulp_search n p e x \<le> e + int n
   \<and> (ulp_search n p e x < e + int n \<longrightarrow> \<bar>x\<bar> < power_int 2 (ulp_search n p e x + int p))
   \<and> (\<forall>k. e \<le> k \<and> k < ulp_search n p e x \<longrightarrow> power_int 2 (k + int p) \<le> \<bar>x\<bar>)"
proof (induction n arbitrary: e)
  case 0
  then show ?case by simp
next
  case (Suc n)
  show ?case
  proof (cases "\<bar>x\<bar> < power_int 2 (e + int p)")
    case True
    then show ?thesis by simp
  next
    case False
    have r: "ulp_search (Suc n) p e x = ulp_search n p (e + 1) x"
      using False by simp
    from Suc.IH [of "e + 1"] have
      a: "e + 1 \<le> ulp_search n p (e + 1) x" and
      b: "ulp_search n p (e + 1) x \<le> e + 1 + int n" and
      c: "ulp_search n p (e + 1) x < e + 1 + int n \<longrightarrow>
            \<bar>x\<bar> < power_int 2 (ulp_search n p (e + 1) x + int p)" and
      d: "\<forall>k. e + 1 \<le> k \<and> k < ulp_search n p (e + 1) x \<longrightarrow> power_int 2 (k + int p) \<le> \<bar>x\<bar>"
      by blast+
    have d': "\<forall>k. e \<le> k \<and> k < ulp_search n p (e + 1) x \<longrightarrow> power_int 2 (k + int p) \<le> \<bar>x\<bar>"
    proof (intro allI impI)
      fix k assume k: "e \<le> k \<and> k < ulp_search n p (e + 1) x"
      show "power_int 2 (k + int p) \<le> \<bar>x\<bar>"
      proof (cases "k = e")
        case True
        with False show ?thesis by simp
      next
        case False
        with k d show ?thesis by simp
      qed
    qed
    from a b c d' show ?thesis
      unfolding r by simp
  qed
qed

lemma round_to_format_exact:
  assumes "x = of_int m * power_int 2 k" "\<bar>m\<bar> < 2 ^ p" "lo \<le> k" "k \<le> hi"
  shows "round_to_format p lo hi x = Finite x"
proof -
  define r where "r = ulp_search (nat (hi - lo + 1)) p lo x"
  have lo_r: "lo \<le> r"
    using ulp_search_bounds [of lo "nat (hi - lo + 1)" p x] by (simp add: r_def)
  have low: "\<forall>j. lo \<le> j \<and> j < r \<longrightarrow> power_int 2 (j + int p) \<le> \<bar>x\<bar>"
    using ulp_search_bounds [of lo "nat (hi - lo + 1)" p x] by (simp add: r_def)
  have absx: "\<bar>x\<bar> = of_int \<bar>m\<bar> * power_int 2 k"
    by (simp add: assms(1) abs_mult power_int_abs)
  have "(of_int \<bar>m\<bar> :: real) < of_int (2 ^ p)"
    using assms(2) by (simp only: of_int_less_iff)
  then have mlt: "(of_int \<bar>m\<bar> :: real) < 2 ^ p"
    by simp
  have xlt: "\<bar>x\<bar> < power_int 2 (k + int p)"
  proof -
    have "\<bar>x\<bar> < 2 ^ p * power_int 2 k"
      unfolding absx using mlt by (simp add: mult_strict_right_mono)
    also have "\<dots> = power_int 2 (k + int p)"
      by (simp add: power_int_add mult.commute)
    finally show ?thesis .
  qed
  have r_k: "r \<le> k"
  proof (rule ccontr)
    assume "\<not> r \<le> k"
    then have "lo \<le> k \<and> k < r" using assms(3) by simp
    with low have "power_int 2 (k + int p) \<le> \<bar>x\<bar>" by blast
    with xlt show False by simp
  qed
  have q: "x / power_int 2 r = of_int (m * 2 ^ nat (k - r))"
  proof -
    have "power_int (2::real) k = power_int 2 (k - r) * power_int 2 r"
      by (simp add: power_int_add [symmetric])
    moreover have "power_int (2::real) (k - r) = 2 ^ nat (k - r)"
      using r_k by (simp add: power_int_nonneg_exp)
    ultimately show ?thesis
      by (simp add: assms(1))
  qed
  have nz: "power_int (2::real) r \<noteq> 0"
    by simp
  have "of_int (round_half_even (x / power_int 2 r)) * power_int 2 r
          = x / power_int 2 r * power_int 2 r"
    unfolding q round_half_even_of_int ..
  also have "\<dots> = x"
    using nz by simp
  finally have y: "of_int (round_half_even (x / power_int 2 r)) * power_int 2 r = x" .
  have "\<bar>x\<bar> \<le> (2 ^ p - 1) * power_int 2 hi"
  proof -
    have "\<bar>m\<bar> \<le> 2 ^ p - 1" using assms(2) by simp
    then have "(of_int \<bar>m\<bar> :: real) \<le> of_int (2 ^ p - 1)"
      by (simp only: of_int_le_iff)
    then have "(of_int \<bar>m\<bar> :: real) \<le> 2 ^ p - 1"
      by simp
    moreover have "power_int (2::real) k \<le> power_int 2 hi"
      using assms(4) by (simp add: power_int_increasing)
    ultimately have "of_int \<bar>m\<bar> * power_int 2 k \<le> (2 ^ p - 1) * power_int (2::real) hi"
      by (intro mult_mono) simp_all
    then show ?thesis by (simp add: absx)
  qed
  then show ?thesis
    by (simp add: round_to_format_def r_def [symmetric] y Let_def)
qed

lemma round_to_format_representable:
  "representable p lo hi x \<Longrightarrow> round_to_format p lo hi x = Finite x"
  unfolding representable_def using round_to_format_exact by blast

lemma round_to_format_Finite_iff:
  "round_to_format p lo hi x = Finite z \<longleftrightarrow>
     (let e = ulp_search (nat (hi - lo + 1)) p lo x;
          y = of_int (round_half_even (x / power_int 2 e)) * power_int 2 e
      in \<not> (2 ^ p - 1) * power_int 2 hi < \<bar>y\<bar> \<and> z = y)"
  by (auto simp: round_to_format_def Let_def)

lemma representable_round_to_format:
  assumes "round_to_format p lo hi x = Finite x" "lo \<le> hi"
  shows "representable p lo hi x"
proof -
  define r where "r = ulp_search (nat (hi - lo + 1)) p lo x"
  define m where "m = round_half_even (x / power_int 2 r)"
  from assms(1) have ymax: "\<not> (2 ^ p - 1) * power_int 2 hi < \<bar>x\<bar>"
    and xy: "x = of_int m * power_int 2 r"
    by (auto simp: round_to_format_Finite_iff Let_def r_def m_def)
  have n: "lo + int (nat (hi - lo + 1)) = hi + 1"
    using assms(2) by simp
  note b = ulp_search_bounds [of lo "nat (hi - lo + 1)" p x, folded r_def, unfolded n]
  have lo_r: "lo \<le> r" and r_hi1: "r \<le> hi + 1" using b by blast+
  have r_hi: "r \<le> hi"
  proof (rule ccontr)
    assume "\<not> r \<le> hi"
    then have "lo \<le> hi \<and> hi < r" using assms(2) by simp
    with b have "power_int 2 (hi + int p) \<le> \<bar>x\<bar>" by blast
    moreover have "(2 ^ p - 1) * power_int (2::real) hi < power_int 2 (hi + int p)"
      by (simp add: power_int_add mult.commute)
    ultimately show False using ymax by simp
  qed
  then have xlt: "\<bar>x\<bar> < power_int 2 (r + int p)"
    using b by simp
  have "\<bar>x\<bar> = of_int \<bar>m\<bar> * power_int 2 r"
    by (subst xy) (simp add: abs_mult power_int_abs)
  with xlt have "of_int \<bar>m\<bar> * power_int (2::real) r < 2 ^ p * power_int 2 r"
    by (simp add: power_int_add mult.commute)
  then have "(of_int \<bar>m\<bar> :: real) < 2 ^ p"
    by simp
  then have "(of_int \<bar>m\<bar> :: real) < of_int (2 ^ p)"
    by simp
  then have "\<bar>m\<bar> < 2 ^ p"
    by (simp only: of_int_less_iff)
  with xy lo_r r_hi show ?thesis
    unfolding representable_def by blast
qed

lemma round32_representable: "representable32 x \<Longrightarrow> round32 x = Finite x"
  by (simp add: representable32_def round32_def round_to_format_representable)

lemma representable32_round32: "round32 x = Finite x \<Longrightarrow> representable32 x"
  by (simp add: representable32_def round32_def representable_round_to_format)

lemma representable32_int:
  assumes "\<bar>n\<bar> < 2 ^ 24"
  shows "representable32 (of_int n)"
  unfolding representable32_def representable_def
  by (rule exI [of _ n], rule exI [of _ 0]) (use assms in simp)

lemma representable32_scaled:
  assumes "\<bar>m\<bar> < 2 ^ 24" "- 149 \<le> e" "e \<le> 104"
  shows "representable32 (of_int m * power_int 2 e)"
  unfolding representable32_def representable_def
  using assms by blast

lemma representable32_Ints:
  assumes "representable32 x" "2 ^ 23 \<le> \<bar>x\<bar>"
  shows "x \<in> \<int>"
proof -
  from assms(1) obtain m e where x: "x = of_int m * power_int 2 e" and m: "\<bar>m\<bar> < 2 ^ 24"
    unfolding representable32_def representable_def by blast
  have "0 \<le> e"
  proof (rule ccontr)
    assume "\<not> 0 \<le> e"
    then have "e \<le> - 1" by simp
    then have "power_int (2::real) e \<le> power_int 2 (- 1)"
      by (intro power_int_increasing) simp_all
    then have e2: "power_int (2::real) e \<le> 1 / 2" by simp
    have "(of_int \<bar>m\<bar> :: real) < of_int (2 ^ 24)"
      using m by (simp only: of_int_less_iff)
    then have m2: "(of_int \<bar>m\<bar> :: real) < 2 ^ 24" by simp
    have "\<bar>x\<bar> = of_int \<bar>m\<bar> * power_int 2 e"
      by (subst x) (simp add: abs_mult power_int_abs)
    also have "\<dots> \<le> of_int \<bar>m\<bar> * (1 / 2)"
      using e2 by (intro mult_left_mono) simp_all
    also have "\<dots> < 2 ^ 24 * (1 / 2)"
      using m2 by simp
    finally show False using assms(2) by simp
  qed
  then have "power_int (2::real) e = of_int (2 ^ nat e)"
    by (simp add: power_int_nonneg_exp)
  then have "x = of_int (m * 2 ^ nat e)"
    by (simp add: x)
  then show ?thesis
    by (metis Ints_of_int)
qed

lemma representable32_floor:
  assumes "representable32 x"
  shows "representable32 (of_int \<lfloor>x\<rfloor>)"
proof (cases "2 ^ 23 \<le> \<bar>x\<bar>")
  case True
  then have "x \<in> \<int>" using assms by (rule representable32_Ints [rotated])
  then obtain n where "x = of_int n" by (rule Ints_cases)
  then have "of_int \<lfloor>x\<rfloor> = x" by simp
  with assms show ?thesis by (simp only:)
next
  case False
  then have "\<bar>x\<bar> < 2 ^ 23" by simp
  then have "- (2 ^ 23) < x" "x < 2 ^ 23" by (simp_all add: abs_less_iff)
  then have "- 8388608 \<le> \<lfloor>x\<rfloor>" "\<lfloor>x\<rfloor> < 8388608"
    by (simp_all add: le_floor_iff floor_less_iff)
  then have "\<bar>\<lfloor>x\<rfloor>\<bar> < 16777216" by linarith
  then have "\<bar>\<lfloor>x\<rfloor>\<bar> < 2 ^ 24" by simp
  then show ?thesis by (rule representable32_int)
qed

lemma representable32_ceiling:
  assumes "representable32 x"
  shows "representable32 (of_int \<lceil>x\<rceil>)"
proof (cases "2 ^ 23 \<le> \<bar>x\<bar>")
  case True
  then have "x \<in> \<int>" using assms by (rule representable32_Ints [rotated])
  then obtain n where "x = of_int n" by (rule Ints_cases)
  then have "of_int \<lceil>x\<rceil> = x" by simp
  with assms show ?thesis by (simp only:)
next
  case False
  then have "\<bar>x\<bar> < 2 ^ 23" by simp
  then have "- (2 ^ 23) < x" "x < 2 ^ 23" by (simp_all add: abs_less_iff)
  then have "- 8388608 \<le> \<lceil>x\<rceil>" "\<lceil>x\<rceil> \<le> 8388608"
    by (simp_all add: le_ceiling_iff ceiling_le_iff)
  then have "\<bar>\<lceil>x\<rceil>\<bar> < 16777216" by linarith
  then have "\<bar>\<lceil>x\<rceil>\<bar> < 2 ^ 24" by simp
  then show ?thesis by (rule representable32_int)
qed

lemma representable32_max_int: "representable32 2147483520"
proof -
  have "representable32 (of_int 16777215 * power_int 2 7)"
    by (rule representable32_scaled) simp_all
  then show ?thesis by simp
qed

lemma representable32_min_int: "representable32 (- 2147483520)"
proof -
  have "representable32 (of_int (- 16777215) * power_int 2 7)"
    by (rule representable32_scaled) simp_all
  then show ?thesis by simp
qed

lemma round32_of_int: "\<bar>n\<bar> < 2 ^ 24 \<Longrightarrow> round32 (of_int n) = Finite (of_int n)"
  by (rule round32_representable) (rule representable32_int)

lemma round32_numeral:
  "(numeral k :: int) < 16777216 \<Longrightarrow> round32 (numeral k) = Finite (numeral k)"
  using round32_of_int [of "numeral k"] by simp

lemma round32_neg_numeral:
  "(numeral k :: int) < 16777216 \<Longrightarrow> round32 (- numeral k) = Finite (- numeral k)"
  using round32_of_int [of "- numeral k"] by simp

lemma round32_0: "round32 0 = Finite 0"
  using round32_of_int [of 0] by simp

lemma round32_1: "round32 1 = Finite 1"
  using round32_of_int [of 1] by simp

lemma round32_max_int: "round32 2147483520 = Finite 2147483520"
  by (rule round32_representable) (rule representable32_max_int)

lemma round32_min_int: "round32 (- 2147483520) = Finite (- 2147483520)"
  by (rule round32_representable) (rule representable32_min_int)

lemma round64_of_int: "\<bar>n\<bar> < 2 ^ 53 \<Longrightarrow> round64 (of_int n) = Finite (of_int n)"
proof -
  assume "\<bar>n\<bar> < 2 ^ 53"
  then have "representable 53 (- 1074) 971 (of_int n)"
    unfolding representable_def
    by (intro exI [of _ n] exI [of _ 0]) simp
  then show ?thesis
    by (simp add: round64_def round_to_format_representable)
qed

lemma round64_numeral:
  "(numeral k :: int) < 9007199254740992 \<Longrightarrow> round64 (numeral k) = Finite (numeral k)"
  using round64_of_int [of "numeral k"] by simp

lemmas round_numeral_simps =
  round32_numeral round32_neg_numeral round32_0 round32_1 round32_max_int round32_min_int
  round64_numeral

lemma is_float_Finite: "is_float (Finite x) \<longleftrightarrow> representable32 x"
  using round32_representable representable32_round32 by auto

lemma SkIntToScalar_floor:
  "is_float (Finite x) \<Longrightarrow> SkIntToScalar \<lfloor>x\<rfloor> = Finite (of_int \<lfloor>x\<rfloor>)"
  by (simp add: SkIntToScalar_def is_float_Finite round32_representable representable32_floor
      del: is_float.simps)

lemma SkIntToScalar_ceiling:
  "is_float (Finite x) \<Longrightarrow> SkIntToScalar \<lceil>x\<rceil> = Finite (of_int \<lceil>x\<rceil>)"
  by (simp add: SkIntToScalar_def is_float_Finite round32_representable representable32_ceiling
      del: is_float.simps)

lemma SkIntToScalar_max: "SkIntToScalar 2147483520 = Finite 2147483520"
  by (simp add: SkIntToScalar_def round32_max_int)

lemma SkIntToScalar_min: "SkIntToScalar (- 2147483520) = Finite (- 2147483520)"
  by (simp add: SkIntToScalar_def round32_min_int)

lemma sk_float_saturate2int_of_int:
  "sk_float_saturate2int (Finite (of_int n)) =
     (if n < SK_MaxS32FitsInFloat
      then (if SK_MinS32FitsInFloat < n then n else SK_MinS32FitsInFloat)
      else SK_MaxS32FitsInFloat)"
  by (simp add: sk_float_saturate2int_def Let_def SK_MinS32FitsInFloat_def
      SK_MaxS32FitsInFloat_def)

lemma sk_float_floor2int_Finite:
  "sk_float_floor2int (Finite x) =
     (if \<lfloor>x\<rfloor> < SK_MaxS32FitsInFloat
      then (if SK_MinS32FitsInFloat < \<lfloor>x\<rfloor> then \<lfloor>x\<rfloor> else SK_MinS32FitsInFloat)
      else SK_MaxS32FitsInFloat)"
  by (simp add: sk_float_floor2int_def sk_float_saturate2int_of_int)

lemma sk_float_ceil2int_Finite:
  "sk_float_ceil2int (Finite x) =
     (if \<lceil>x\<rceil> < SK_MaxS32FitsInFloat
      then (if SK_MinS32FitsInFloat < \<lceil>x\<rceil> then \<lceil>x\<rceil> else SK_MinS32FitsInFloat)
      else SK_MaxS32FitsInFloat)"
  by (simp add: sk_float_ceil2int_def sk_float_saturate2int_of_int)

lemma sk_float_floor2int_other:
  "sk_float_floor2int NaN = SK_MaxS32FitsInFloat"
  "sk_float_floor2int PosInf = SK_MaxS32FitsInFloat"
  "sk_float_floor2int NegInf = SK_MinS32FitsInFloat"
  by (simp_all add: sk_float_floor2int_def sk_float_saturate2int_def Let_def
      SK_MinS32FitsInFloat_def SK_MaxS32FitsInFloat_def)

lemma sk_float_ceil2int_other:
  "sk_float_ceil2int NaN = SK_MaxS32FitsInFloat"
  "sk_float_ceil2int PosInf = SK_MaxS32FitsInFloat"
  "sk_float_ceil2int NegInf = SK_MinS32FitsInFloat"
  by (simp_all add: sk_float_ceil2int_def sk_float_saturate2int_def Let_def
      SK_MinS32FitsInFloat_def SK_MaxS32FitsInFloat_def)

text \<open>The left and top edges: rounded down, an integer, and not above the edge
  unless the edge lies below the range.\<close>

lemma floor_edge:
  assumes "is_float s"
  shows "is_integer (SkIntToScalar (sk_float_floor2int s))"
    and "fle (Finite (of_int SK_MinS32FitsInFloat)) s \<Longrightarrow>
           fle (SkIntToScalar (sk_float_floor2int s)) s"
proof -
  show "is_integer (SkIntToScalar (sk_float_floor2int s))"
  proof (cases s)
    case (Finite x)
    with assms SkIntToScalar_floor [of x] show ?thesis
      by (simp add: sk_float_floor2int_Finite SkIntToScalar_max SkIntToScalar_min
          SK_MinS32FitsInFloat_def SK_MaxS32FitsInFloat_def del: is_float.simps)
  qed (simp_all add: sk_float_floor2int_other SkIntToScalar_max SkIntToScalar_min
         SK_MinS32FitsInFloat_def SK_MaxS32FitsInFloat_def)
  show "fle (SkIntToScalar (sk_float_floor2int s)) s"
    if "fle (Finite (of_int SK_MinS32FitsInFloat)) s"
  proof (cases s)
    case (Finite x)
    have f: "of_int \<lfloor>x\<rfloor> \<le> x" by (rule of_int_floor_le)
    show ?thesis
    proof (cases "\<lfloor>x\<rfloor> < SK_MaxS32FitsInFloat")
      case True
      with Finite assms that SkIntToScalar_floor [of x] f show ?thesis
        by (simp add: sk_float_floor2int_Finite SkIntToScalar_min SK_MinS32FitsInFloat_def
            SK_MaxS32FitsInFloat_def le_floor_iff floor_less_iff del: is_float.simps)
    next
      case False
      then have "2147483520 \<le> \<lfloor>x\<rfloor>" by (simp add: SK_MaxS32FitsInFloat_def)
      then have "2147483520 \<le> x" by (simp add: le_floor_iff)
      with Finite False show ?thesis
        by (simp add: sk_float_floor2int_Finite SkIntToScalar_max SK_MaxS32FitsInFloat_def)
    qed
  next
    case PosInf
    then show ?thesis
      by (simp add: sk_float_floor2int_other SkIntToScalar_max SK_MaxS32FitsInFloat_def)
  next
    case NegInf
    with that show ?thesis by simp
  next
    case NaN
    with that show ?thesis by simp
  qed
qed

text \<open>The right and bottom edges: rounded up, an integer, and not below the edge
  unless the edge lies above the range.\<close>

lemma ceil_edge:
  assumes "is_float s"
  shows "is_integer (SkIntToScalar (sk_float_ceil2int s))"
    and "fle s (Finite (of_int SK_MaxS32FitsInFloat)) \<Longrightarrow>
           fle s (SkIntToScalar (sk_float_ceil2int s))"
proof -
  show "is_integer (SkIntToScalar (sk_float_ceil2int s))"
  proof (cases s)
    case (Finite x)
    with assms SkIntToScalar_ceiling [of x] show ?thesis
      by (simp add: sk_float_ceil2int_Finite SkIntToScalar_max SkIntToScalar_min
          SK_MinS32FitsInFloat_def SK_MaxS32FitsInFloat_def del: is_float.simps)
  qed (simp_all add: sk_float_ceil2int_other SkIntToScalar_max SkIntToScalar_min
         SK_MinS32FitsInFloat_def SK_MaxS32FitsInFloat_def)
  show "fle s (SkIntToScalar (sk_float_ceil2int s))"
    if "fle s (Finite (of_int SK_MaxS32FitsInFloat))"
  proof (cases s)
    case (Finite x)
    have c: "x \<le> of_int \<lceil>x\<rceil>" by (rule le_of_int_ceiling)
    show ?thesis
    proof (cases "SK_MinS32FitsInFloat < \<lceil>x\<rceil>")
      case True
      with Finite assms that SkIntToScalar_ceiling [of x] c show ?thesis
        by (simp add: sk_float_ceil2int_Finite SkIntToScalar_max SK_MinS32FitsInFloat_def
            SK_MaxS32FitsInFloat_def ceiling_le_iff less_ceiling_iff del: is_float.simps)
    next
      case False
      then have "\<lceil>x\<rceil> \<le> - 2147483520"
        by (simp add: SK_MinS32FitsInFloat_def SK_MaxS32FitsInFloat_def)
      then have "x \<le> - 2147483520" by (simp add: ceiling_le_iff)
      with Finite False show ?thesis
        by (simp add: sk_float_ceil2int_Finite SkIntToScalar_min SK_MinS32FitsInFloat_def
            SK_MaxS32FitsInFloat_def)
    qed
  next
    case NegInf
    then show ?thesis
      by (simp add: sk_float_ceil2int_other SkIntToScalar_min SK_MinS32FitsInFloat_def
          SK_MaxS32FitsInFloat_def)
  next
    case PosInf
    with that show ?thesis by simp
  next
    case NaN
    with that show ?thesis by simp
  qed
qed

lemma rounded_out_integer_aligned: "float_rect q \<Longrightarrow> integer_aligned (rounded_out q)"
  by (simp add: float_rect_def integer_aligned_def rounded_out_def set_rect_def roundOut_def
      MakeLTRB_def floor_edge(1) ceil_edge(1))

lemma rounded_out_contains:
  "float_rect q \<Longrightarrow> within_int_range q \<Longrightarrow> contains_rect (rounded_out q) q"
  by (simp add: float_rect_def within_int_range_def contains_rect_def rounded_out_def
      set_rect_def roundOut_def MakeLTRB_def floor_edge(2) ceil_edge(2))

subsection \<open>Preroll\<close>

text \<open>Params that compare equal are the same value, so storing them again changes nothing.\<close>

lemma feq_eq: "feq a b \<Longrightarrow> a = b"
  by (cases a; cases b) simp_all

lemma params_equal_eq: "params_equal a b \<Longrightarrow> a = b"
proof -
  assume e: "params_equal a b"
  have r: "finalBoundingRect a = finalBoundingRect b"
    using e by (cases "finalBoundingRect a"; cases "finalBoundingRect b")
      (simp add: params_equal_def rect_equal_def feq_eq)
  have z: "sizePoints a = sizePoints b"
    using e by (cases "sizePoints a"; cases "sizePoints b")
      (simp add: params_equal_def size_equal_def feq_eq)
  have m: "mutatorsStack a = mutatorsStack b"
    using e by (simp add: params_equal_def)
  from r z m show ?thesis
    by (cases a; cases b) simp
qed

lemma Preroll_eq:
  "PrerollCompositeEmbeddedView s view_id params = Preroll_updating_params s view_id params"
  by (auto simp: PrerollCompositeEmbeddedView_def Preroll_updating_params_def Let_def map_upd_triv
      dest!: params_equal_eq split: option.splits)

lemma composition_order_Preroll:
  "composition_order (PrerollCompositeEmbeddedView s view_id params)
     = composition_order s @ [scast view_id]"
  by (simp add: Preroll_eq Preroll_updating_params_def)

lemma view_params_Preroll:
  "view_params (PrerollCompositeEmbeddedView s view_id params)
     = (view_params s)(scast view_id \<mapsto> params)"
  by (simp add: Preroll_eq Preroll_updating_params_def)



lemma composition_order_prerolls:
  "composition_order (prerolls s calls) = composition_order s @ map (\<lambda>c. scast (fst c)) calls"
  by (induction s calls rule: prerolls.induct) (simp_all add: composition_order_Preroll)



text \<open>Widening an \<^verbatim>\<open>int\<close> id to \<^verbatim>\<open>int64_t\<close> loses nothing.\<close>

lemma sint_scast_32_64: "sint (scast (x :: 32 word) :: 64 word) = sint x"
  by (rule sint_up_scast) (simp add: is_up)




lemma one_view_order: "composition_order one_view_embedder = [7]"
  by (simp add: one_view_embedder_def idle_embedder_def composition_order_Preroll)

text \<open>
  C6. Within a frame the composition order is the sequence of prerolled ids, one entry
  per call in call order, repeats included; as integers the entries are the ids that
  were passed; the ids in the order are exactly the prerolled ones; and \<^verbatim>\<open>BeginFrame\<close>
  starts every frame with an empty order.
\<close>

theorem composition_order_is_preroll_sequence:
  "composition_order (fst (BeginFrame s sz ratio m)) = []
   \<and> composition_order (PrerollCompositeEmbeddedView s' view_id params)
       = composition_order s' @ [scast view_id]
   \<and> composition_order (prerolls (fst (BeginFrame s sz ratio m)) calls)
       = map (\<lambda>c. scast (fst c)) calls
   \<and> map sint (composition_order (prerolls (fst (BeginFrame s sz ratio m)) calls))
       = map (\<lambda>c. sint (fst c)) calls
   \<and> set (composition_order (prerolls (fst (BeginFrame s sz ratio m)) calls))
       = (\<lambda>c. scast (fst c)) ` set calls"
  by (simp add: composition_order_prerolls composition_order_Preroll BeginFrame_def Reset_def
      sint_scast_32_64 comp_def)

text \<open>
  C9. When the params map already holds value-equal params for the id, a preroll leaves
  the params map as it is, and the call's whole result is the one an unconditional
  update of the params would give: skipping the update changes nothing else.
\<close>

theorem Preroll_equal_params_unchanged:
  "view_params s (scast view_id) = Some params \<Longrightarrow>
     view_params (PrerollCompositeEmbeddedView s view_id params) = view_params s
     \<and> PrerollCompositeEmbeddedView s view_id params = Preroll_updating_params s view_id params"
  by (simp add: Preroll_eq Preroll_updating_params_def map_upd_triv)

theorem Preroll_equal_params_unchanged_witness:
  "view_params one_view_embedder (scast (7 :: 32 word)) = Some some_params
   \<and> view_params (PrerollCompositeEmbeddedView one_view_embedder 7 some_params)
       = view_params one_view_embedder
   \<and> PrerollCompositeEmbeddedView one_view_embedder 7 some_params
       = Preroll_updating_params one_view_embedder 7 some_params"
proof -
  have a: "view_params one_view_embedder (scast (7 :: 32 word)) = Some some_params"
    by (simp add: one_view_embedder_def view_params_Preroll)
  from a Preroll_equal_params_unchanged [OF a] show ?thesis by blast
qed



subsection \<open>Resubmission\<close>

text \<open>
  C1. \<^verbatim>\<open>PostPrerollAction\<close> returns \<^verbatim>\<open>kResubmitFrame\<close> exactly when the composition
  order is non-empty and the merger reports unmerged, and then the order is empty
  afterwards; with an empty order it returns \<^verbatim>\<open>kSuccess\<close> whatever the merger
  reports, calls nothing on the merger and leaves the embedder as it was.
\<close>

theorem PostPrerollAction_result:
  "(fst (PostPrerollAction s m) = kResubmitFrame
      \<longleftrightarrow> composition_order s \<noteq> [] \<and> \<not> IsMerged m)
   \<and> (fst (PostPrerollAction s m) = kResubmitFrame \<longrightarrow>
        composition_order (fst (snd (PostPrerollAction s m))) = [])
   \<and> (composition_order s = [] \<longrightarrow> PostPrerollAction s m = (kSuccess, s, []))"
  by (simp add: PostPrerollAction_def CancelFrame_def Reset_def)

theorem PostPrerollAction_result_witness:
  "composition_order one_view_embedder \<noteq> [] \<and> \<not> IsMerged unmerged
   \<and> fst (PostPrerollAction one_view_embedder unmerged) = kResubmitFrame
   \<and> composition_order (fst (snd (PostPrerollAction one_view_embedder unmerged))) = []
   \<and> composition_order idle_embedder = []
   \<and> PostPrerollAction idle_embedder unmerged = (kSuccess, idle_embedder, [])
   \<and> PostPrerollAction idle_embedder merged = (kSuccess, idle_embedder, [])"
proof -
  have a: "composition_order one_view_embedder \<noteq> [] \<and> \<not> IsMerged unmerged"
    by (simp add: one_view_order unmerged_def)
  have b: "composition_order idle_embedder = []"
    by (simp add: idle_embedder_def)
  show ?thesis
    using a b PostPrerollAction_result [of one_view_embedder unmerged]
      PostPrerollAction_result [of idle_embedder unmerged]
      PostPrerollAction_result [of idle_embedder merged]
    by blast
qed

text \<open>
  C2, as the claim states it, fails: with one view prerolled and the merger unmerged,
  \<^verbatim>\<open>PostPrerollAction\<close> makes no \<^verbatim>\<open>MergeWithLease\<close> call.
\<close>

theorem PostPrerollAction_requests_no_merge:
  "composition_order one_view_embedder \<noteq> [] \<and> \<not> IsMerged unmerged
   \<and> \<not> requests_merge (snd (snd (PostPrerollAction one_view_embedder unmerged)))"
  by (simp add: PostPrerollAction_def one_view_order unmerged_def requests_merge_def)

text \<open>
  C2, amended. With a non-empty composition order and the merger unmerged,
  \<^verbatim>\<open>PostPrerollAction\<close> only asks the merger whether it is merged; it sets the
  resubmission flag, cancels the frame as \<^verbatim>\<open>CancelFrame\<close> does and returns
  \<^verbatim>\<open>kResubmitFrame\<close>. The merge is requested by the \<^verbatim>\<open>EndFrame\<close> that follows with
  \<^verbatim>\<open>should_resubmit_frame\<close> set, which also clears the flag.
\<close>

theorem PostPrerollAction_unmerged:
  "composition_order s \<noteq> [] \<Longrightarrow> \<not> IsMerged m \<Longrightarrow>
     PostPrerollAction s m =
       (kResubmitFrame,
        CancelFrame (s\<lparr>should_run_rasterizer_on_platform_thread := True\<rparr>),
        [Merger_IsMerged])
     \<and> \<not> requests_merge (snd (snd (PostPrerollAction s m)))
     \<and> should_run_rasterizer_on_platform_thread (fst (snd (PostPrerollAction s m)))
     \<and> composition_order (fst (snd (PostPrerollAction s m))) = []
     \<and> picture_recorders (fst (snd (PostPrerollAction s m))) = Map.empty
     \<and> snd (EndFrame (fst (snd (PostPrerollAction s m))) True m') =
         Merger_MergeWithLease (kDefaultMergedLeaseDuration s) # Merger_IsOnPlatformThread #
           (if IsOnPlatformThread m' then [FlutterViewEndFrame] else [])
     \<and> requests_merge (snd (EndFrame (fst (snd (PostPrerollAction s m))) True m'))
     \<and> \<not> should_run_rasterizer_on_platform_thread
           (fst (EndFrame (fst (snd (PostPrerollAction s m))) True m'))"
  by (simp add: PostPrerollAction_def CancelFrame_def Reset_def EndFrame_def requests_merge_def)

theorem PostPrerollAction_unmerged_witness:
  "composition_order one_view_embedder \<noteq> [] \<and> \<not> IsMerged unmerged
   \<and> PostPrerollAction one_view_embedder unmerged =
       (kResubmitFrame,
        CancelFrame (one_view_embedder\<lparr>should_run_rasterizer_on_platform_thread := True\<rparr>),
        [Merger_IsMerged])
   \<and> snd (EndFrame (fst (snd (PostPrerollAction one_view_embedder unmerged))) True merged) =
        [Merger_MergeWithLease 10, Merger_IsOnPlatformThread, FlutterViewEndFrame]"
proof -
  have a: "composition_order one_view_embedder \<noteq> []"
    by (simp add: one_view_order)
  have b: "\<not> IsMerged unmerged"
    by (simp add: unmerged_def)
  have c: "kDefaultMergedLeaseDuration one_view_embedder = 10"
    by (simp add: one_view_embedder_def idle_embedder_def Preroll_eq Preroll_updating_params_def)
  have d: "IsOnPlatformThread merged"
    by (simp add: merged_def)
  note w = PostPrerollAction_unmerged [OF a b, of merged]
  have e: "snd (EndFrame (fst (snd (PostPrerollAction one_view_embedder unmerged))) True merged) =
      Merger_MergeWithLease (kDefaultMergedLeaseDuration one_view_embedder) #
      Merger_IsOnPlatformThread # (if IsOnPlatformThread merged then [FlutterViewEndFrame] else [])"
    using w by blast
  have f: "snd (EndFrame (fst (snd (PostPrerollAction one_view_embedder unmerged))) True merged) =
      [Merger_MergeWithLease 10, Merger_IsOnPlatformThread, FlutterViewEndFrame]"
    using e c d by simp
  from a b w f show ?thesis
    by blast
qed

text \<open>
  C4. While the resubmission flag is set, \<^verbatim>\<open>SubmitFrame\<close> returns true, makes no call
  on the canvas, the host or the pool, and leaves every field of the embedder as it was.
\<close>

theorem SubmitFrame_pending_resubmission:
  "should_run_rasterizer_on_platform_thread s \<Longrightarrow>
     SubmitFrame s joined_rect context = Inr (True, s, [])"
  by (simp add: SubmitFrame_def)

theorem SubmitFrame_pending_resubmission_witness:
  "should_run_rasterizer_on_platform_thread awaiting_resubmit
   \<and> SubmitFrame awaiting_resubmit (\<lambda>i j. MakeEmpty) 0 = Inr (True, awaiting_resubmit, [])"
proof -
  have a: "should_run_rasterizer_on_platform_thread awaiting_resubmit"
    by (simp add: awaiting_resubmit_def PostPrerollAction_def one_view_order unmerged_def
        CancelFrame_def Reset_def)
  from a SubmitFrame_pending_resubmission [OF a, of "\<lambda>i j. MakeEmpty" 0] show ?thesis
    by simp
qed

text \<open>
  C7. Whatever the flag, the argument and the merger, after \<^verbatim>\<open>EndFrame\<close> the pool is
  the recycled pool: the same layers in the same order, none of them in use.
\<close>

theorem EndFrame_recycles_layers:
  "surface_pool (fst (EndFrame s should_resubmit_frame m)) = RecycleLayers (surface_pool s)
   \<and> map layer_id (surface_pool (fst (EndFrame s should_resubmit_frame m)))
       = map layer_id (surface_pool s)
   \<and> map in_use (surface_pool (fst (EndFrame s should_resubmit_frame m)))
       = replicate (length (surface_pool s)) False"
  by (simp add: EndFrame_def RecycleLayers_def comp_def map_replicate_const split: prod.splits)

text \<open>
  C10. \<^verbatim>\<open>Reset\<close> and \<^verbatim>\<open>CancelFrame\<close> clear the composition order and the recorders
  and nothing else, so the params map and the indices stay. The params map survives
  the end of a frame and the start of the next, and a resubmission; the params stored
  by a preroll in one frame are found, and left alone, by an equal preroll in the next.
\<close>

theorem Reset_keeps_view_params:
  "Reset s = s\<lparr>composition_order := [], picture_recorders := Map.empty\<rparr>
   \<and> CancelFrame s = Reset s
   \<and> view_params (Reset s) = view_params s \<and> view_rtrees (Reset s) = view_rtrees s
   \<and> view_params (CancelFrame s) = view_params s \<and> view_rtrees (CancelFrame s) = view_rtrees s
   \<and> view_params (fst (BeginFrame (fst (EndFrame s should_resubmit_frame m)) sz ratio m'))
        = view_params s
   \<and> view_params (fst (snd (PostPrerollAction s m))) = view_params s
   \<and> view_params (fst (BeginFrame (fst (EndFrame
        (PrerollCompositeEmbeddedView s view_id params) should_resubmit_frame m)) sz ratio m'))
        (scast view_id) = Some params
   \<and> view_params (PrerollCompositeEmbeddedView (fst (BeginFrame (fst (EndFrame
        (PrerollCompositeEmbeddedView s view_id params) should_resubmit_frame m)) sz ratio m'))
        view_id params)
      = view_params (PrerollCompositeEmbeddedView s view_id params)"
  by (simp add: Reset_def CancelFrame_def BeginFrame_def EndFrame_def PostPrerollAction_def
      view_params_Preroll split: prod.splits)

subsection \<open>Rectangles\<close>

lemma flt_trans: "flt a b \<Longrightarrow> flt b c \<Longrightarrow> flt a c"
  by (cases a; cases b; cases c) simp_all

lemma flt_fmin_fmax: "flt l r \<Longrightarrow> flt l' r' \<Longrightarrow> flt (fmin l l') (fmax r r')"
  by (auto simp: fmin_def fmax_def intro: flt_trans)

lemma join_empty_arg: "isEmpty r \<Longrightarrow> join acc r = acc"
  by (simp add: join_def)

lemma join_empty_this: "isEmpty acc \<Longrightarrow> \<not> isEmpty r \<Longrightarrow> join acc r = r"
  by (simp add: join_def)

lemma join_nonempty:
  "\<not> isEmpty acc \<Longrightarrow> \<not> isEmpty r \<Longrightarrow>
     join acc r = MakeLTRB (fmin (fLeft acc) (fLeft r)) (fmin (fTop acc) (fTop r))
                           (fmax (fRight acc) (fRight r)) (fmax (fBottom acc) (fBottom r))
     \<and> \<not> isEmpty (join acc r)"
  by (simp add: join_def isEmpty_def MakeLTRB_def flt_fmin_fmax)

lemma foldl_join_nonempty:
  "\<not> isEmpty acc \<Longrightarrow>
     foldl join acc rects =
       MakeLTRB (fold (\<lambda>a b. fmin b a) (map fLeft (filter (\<lambda>r. \<not> isEmpty r) rects)) (fLeft acc))
                (fold (\<lambda>a b. fmin b a) (map fTop (filter (\<lambda>r. \<not> isEmpty r) rects)) (fTop acc))
                (fold (\<lambda>a b. fmax b a) (map fRight (filter (\<lambda>r. \<not> isEmpty r) rects)) (fRight acc))
                (fold (\<lambda>a b. fmax b a) (map fBottom (filter (\<lambda>r. \<not> isEmpty r) rects))
                   (fBottom acc))"
proof (induction rects arbitrary: acc)
  case Nil
  then show ?case by (simp add: MakeLTRB_def)
next
  case (Cons r rects)
  show ?case
  proof (cases "isEmpty r")
    case True
    with Cons show ?thesis by (simp add: join_empty_arg)
  next
    case False
    have j: "join acc r = MakeLTRB (fmin (fLeft acc) (fLeft r)) (fmin (fTop acc) (fTop r))
                           (fmax (fRight acc) (fRight r)) (fmax (fBottom acc) (fBottom r))"
      and ne: "\<not> isEmpty (join acc r)"
      using join_nonempty [OF Cons.prems False] by blast+
    have "foldl join acc (r # rects) = foldl join (join acc r) rects"
      by simp
    also have "\<dots> =
       MakeLTRB (fold (\<lambda>a b. fmin b a) (map fLeft (filter (\<lambda>r. \<not> isEmpty r) rects))
                   (fLeft (join acc r)))
                (fold (\<lambda>a b. fmin b a) (map fTop (filter (\<lambda>r. \<not> isEmpty r) rects))
                   (fTop (join acc r)))
                (fold (\<lambda>a b. fmax b a) (map fRight (filter (\<lambda>r. \<not> isEmpty r) rects))
                   (fRight (join acc r)))
                (fold (\<lambda>a b. fmax b a) (map fBottom (filter (\<lambda>r. \<not> isEmpty r) rects))
                   (fBottom (join acc r)))"
      by (rule Cons.IH [OF ne])
    finally show ?thesis
      using False by (simp add: j MakeLTRB_def)
  qed
qed

lemma foldl_join_from_empty:
  "isEmpty init \<Longrightarrow> \<not> list_all isEmpty rects \<Longrightarrow> foldl join init rects = union_of_rects rects"
proof (induction rects)
  case Nil
  then show ?case by simp
next
  case (Cons r rects)
  show ?case
  proof (cases "isEmpty r")
    case True
    with Cons show ?thesis by (simp add: join_empty_arg union_of_rects_def)
  next
    case False
    with Cons.prems(1) have "join init r = r" by (simp add: join_empty_this)
    with False foldl_join_nonempty [OF False, of rects] show ?thesis
      by (simp add: union_of_rects_def)
  qed
qed

text \<open>
  Started from an empty rectangle, the collapse of lines 120 to 127 gives the union of
  the returned rectangles.
\<close>

lemma limit_allocations_from_empty:
  "isEmpty init \<Longrightarrow> \<not> list_all isEmpty rects \<Longrightarrow> max_allocations < length rects \<Longrightarrow>
     limit_allocations max_allocations init rects = [union_of_rects rects]"
  by (simp add: limit_allocations_def foldl_join_from_empty)

subsection \<open>The occlusion loops\<close>

lemma clipped_rects_simps [simp]:
  "clipped_rects [] = []"
  "clipped_rects (c # cs) = clip_rect_of c @ clipped_rects cs"
  "clipped_rects (xs @ ys) = clipped_rects xs @ clipped_rects ys"
  by (simp_all add: clipped_rects_def)

lemma overlay_placements_simps [simp]:
  "overlay_placements [] = []"
  "overlay_placements (c # cs) = overlay_placement_of c @ overlay_placements cs"
  "overlay_placements (xs @ ys) = overlay_placements xs @ overlay_placements ys"
  by (simp_all add: overlay_placements_def)

lemma clip_intersection_rects_calls:
  "clip_intersection_rects rs v ov = Inr (ov', calls) \<Longrightarrow>
     clipped_rects calls = map rounded_out rs \<and> overlay_placements calls = []"
  by (induction rs arbitrary: ov ov' calls)
     (auto simp: Let_def rounded_out_def split: sum.splits prod.splits)

lemma clip_intersection_rects_within:
  "clip_intersection_rects rs v ov = Inr (ov', calls) \<Longrightarrow> overlay_within X ov \<Longrightarrow>
     rounded_out ` set rs \<subseteq> X \<Longrightarrow> overlay_within X ov'"
proof (induction rs arbitrary: ov ov' calls)
  case Nil
  then show ?case by simp
next
  case (Cons r rs)
  from Cons.prems(1) obtain layers ov1 calls1 where
    l: "ov v = Some layers" and
    rec: "clip_intersection_rects rs v (ov(v \<mapsto> layers @ [rounded_out r])) = Inr (ov1, calls1)" and
    eq: "ov' = ov1"
    by (auto simp: Let_def at_key_def rounded_out_def
        split: sum.splits prod.splits option.splits)
  have w: "overlay_within X (ov(v \<mapsto> layers @ [rounded_out r]))"
    using Cons.prems(2,3) l by (auto simp: overlay_within_def)
  have x: "rounded_out ` set rs \<subseteq> X"
    using Cons.prems(3) by simp
  from Cons.IH [OF rec w x] eq show ?case by simp
qed

lemma occlusion_queries_calls:
  "occlusion_queries s jr rtree v n ov = Inr (ov', calls) \<Longrightarrow>
   view_rtrees s (composition_order s ! i) = Some rtree \<Longrightarrow> jr = joined_rect i \<Longrightarrow>
     clipped_rects calls = map rounded_out (concat (map (query_result s joined_rect i) (rev [0..<n])))
     \<and> overlay_placements calls = []"
proof (induction n arbitrary: ov ov' calls)
  case 0
  then show ?case by simp
next
  case (Suc j)
  from Suc.prems(1,3) obtain rect ov1 calls1 ov2 calls2 where
    g: "GetViewRect s (ucast (composition_order s ! j)) = Inr rect" and
    c: "clip_intersection_rects
          (limit_allocations (kMaxLayerAllocations s) (joined_rect i j)
             (searchNonOverlappingDrawnRects rtree rect)) v ov = Inr (ov1, calls1)" and
    r: "occlusion_queries s jr rtree v j ov1 = Inr (ov2, calls2)" and
    e: "calls = calls1 @ calls2"
    by (auto simp: Let_def split: sum.splits prod.splits)
  have q: "query_result s joined_rect i j =
      limit_allocations (kMaxLayerAllocations s) (joined_rect i j)
             (searchNonOverlappingDrawnRects rtree rect)"
    by (simp add: query_result_def g Suc.prems(2))
  from clip_intersection_rects_calls [OF c] Suc.IH [OF r Suc.prems(2,3)] e q
  show ?case by simp
qed

lemma occlusion_queries_within:
  "occlusion_queries s jr rtree v n ov = Inr (ov', calls) \<Longrightarrow>
   view_rtrees s (composition_order s ! i) = Some rtree \<Longrightarrow> jr = joined_rect i \<Longrightarrow>
   overlay_within X ov \<Longrightarrow>
   rounded_out ` set (concat (map (query_result s joined_rect i) (rev [0..<n]))) \<subseteq> X \<Longrightarrow>
     overlay_within X ov'"
proof (induction n arbitrary: ov ov' calls)
  case 0
  then show ?case by simp
next
  case (Suc j)
  from Suc.prems(1,3) obtain rect ov1 calls1 ov2 calls2 where
    g: "GetViewRect s (ucast (composition_order s ! j)) = Inr rect" and
    c: "clip_intersection_rects
          (limit_allocations (kMaxLayerAllocations s) (joined_rect i j)
             (searchNonOverlappingDrawnRects rtree rect)) v ov = Inr (ov1, calls1)" and
    r: "occlusion_queries s jr rtree v j ov1 = Inr (ov2, calls2)" and
    e: "ov' = ov2"
    by (auto simp: Let_def split: sum.splits prod.splits)
  have q: "query_result s joined_rect i j =
      limit_allocations (kMaxLayerAllocations s) (joined_rect i j)
             (searchNonOverlappingDrawnRects rtree rect)"
    by (simp add: query_result_def g Suc.prems(2))
  have x1: "rounded_out ` set (query_result s joined_rect i j) \<subseteq> X"
    and x2: "rounded_out ` set (concat (map (query_result s joined_rect i) (rev [0..<j]))) \<subseteq> X"
    using Suc.prems(5) by auto
  have w: "overlay_within X ov1"
    using clip_intersection_rects_within [OF c Suc.prems(4)] x1 q by simp
  from Suc.IH [OF r Suc.prems(2,3) w x2] e show ?case by simp
qed

lemma insert_new_within:
  "overlay_within X ov \<Longrightarrow> overlay_within X (insert_new ov v [])"
  by (auto simp: overlay_within_def insert_new_def split: option.splits if_splits)

lemma composite_slots_unfold:
  assumes "composite_slots s joined_rect (i # rest) pictures ov = Inr (pictures', ov', calls)"
  obtains rtree ov1 calls1 drawn calls3 pictures1 where
    "view_rtrees s (composition_order s ! i) = Some rtree"
    "occlusion_queries s (joined_rect i) rtree (composition_order s ! i) (Suc i)
       (insert_new ov (composition_order s ! i) []) = Inr (ov1, calls1)"
    "composite_slots s joined_rect rest pictures1 ov1 = Inr (pictures', ov', calls3)"
    "calls = calls1 @ Background_drawPicture drawn # calls3"
proof -
  from assms obtain recorder picture where
    a: "at_key (picture_recorders s) (composition_order s ! i) = Inr recorder"
    and b: "finishRecordingAsPicture recorder = Some picture"
    by (auto simp: Let_def split: sum.splits option.splits)
  from assms a b obtain rtree where
    c: "at_key (view_rtrees s) (composition_order s ! i) = Inr rtree"
    by (auto simp: Let_def split: sum.splits option.splits)
  from assms a b c obtain ov1 calls1 where
    d: "occlusion_queries s (joined_rect i) rtree (composition_order s ! i) (Suc i)
       (insert_new ov (composition_order s ! i) []) = Inr (ov1, calls1)"
    by (auto simp: Let_def simp del: occlusion_queries.simps split: sum.splits option.splits)
  from assms a b c d obtain drawn where
    e: "at_key (insert_new pictures (composition_order s ! i) picture) (composition_order s ! i)
          = Inr drawn"
    by (auto simp: Let_def simp del: occlusion_queries.simps split: sum.splits option.splits)
  from assms a b c d e obtain calls3 where
    f: "composite_slots s joined_rect rest (insert_new pictures (composition_order s ! i) picture) ov1
       = Inr (pictures', ov', calls3)"
    and g: "calls = calls1 @ Background_drawPicture drawn # calls3"
    by (auto simp: Let_def simp del: occlusion_queries.simps split: sum.splits option.splits)
  have h: "view_rtrees s (composition_order s ! i) = Some rtree"
    using c by (auto simp: at_key_def split: option.splits)
  show thesis
    using that [OF h d f g] .
qed

lemma composite_slots_calls:
  "composite_slots s joined_rect is pictures ov = Inr (pictures', ov', calls) \<Longrightarrow>
     clipped_rects calls = map rounded_out (concat (map (slot_query_results s joined_rect) is))
     \<and> overlay_placements calls = []"
proof (induction "is" arbitrary: pictures ov calls)
  case Nil
  then show ?case by simp
next
  case (Cons i rest)
  from Cons.prems obtain rtree ov1 calls1 drawn calls3 pictures1 where
    h: "view_rtrees s (composition_order s ! i) = Some rtree" and
    d: "occlusion_queries s (joined_rect i) rtree (composition_order s ! i) (Suc i)
       (insert_new ov (composition_order s ! i) []) = Inr (ov1, calls1)" and
    f: "composite_slots s joined_rect rest pictures1 ov1 = Inr (pictures', ov', calls3)" and
    g: "calls = calls1 @ Background_drawPicture drawn # calls3"
    by (rule composite_slots_unfold)
  from occlusion_queries_calls [where joined_rect = joined_rect and i = i, OF d h refl] Cons.IH [OF f] g
  show ?case by (simp add: slot_query_results_def)
qed

lemma composite_slots_within:
  "composite_slots s joined_rect is pictures ov = Inr (pictures', ov', calls) \<Longrightarrow>
   overlay_within X ov \<Longrightarrow>
   rounded_out ` set (concat (map (slot_query_results s joined_rect) is)) \<subseteq> X \<Longrightarrow>
     overlay_within X ov'"
proof (induction "is" arbitrary: pictures ov calls)
  case Nil
  then show ?case by simp
next
  case (Cons i rest)
  from Cons.prems(1) obtain rtree ov1 calls1 drawn calls3 pictures1 where
    h: "view_rtrees s (composition_order s ! i) = Some rtree" and
    d: "occlusion_queries s (joined_rect i) rtree (composition_order s ! i) (Suc i)
       (insert_new ov (composition_order s ! i) []) = Inr (ov1, calls1)" and
    f: "composite_slots s joined_rect rest pictures1 ov1 = Inr (pictures', ov', calls3)" and
    g: "calls = calls1 @ Background_drawPicture drawn # calls3"
    by (rule composite_slots_unfold)
  have x0: "rounded_out ` set (slot_query_results s joined_rect i) \<subseteq> X"
    and x2: "rounded_out ` set (concat (map (slot_query_results s joined_rect) rest)) \<subseteq> X"
    using Cons.prems(3) by auto
  have x1: "rounded_out ` set (concat (map (query_result s joined_rect i) (rev [0..<Suc i]))) \<subseteq> X"
    using x0 by (simp only: slot_query_results_def)
  have w: "overlay_within X ov1"
    by (rule occlusion_queries_within [where joined_rect = joined_rect and i = i, OF d h refl insert_new_within [OF Cons.prems(2)] x1])
  from Cons.IH [OF f w x2] show ?case .
qed

lemma CreateSurfaceIfNeeded_calls:
  "CreateSurfaceIfNeeded s context view_id picture rect = (frame, s1, calls) \<Longrightarrow>
     clipped_rects calls = [] \<and> overlay_placements calls = [placement rect]"
  by (auto simp: CreateSurfaceIfNeeded_def Let_def placement_def split: prod.splits)

lemma submit_overlays_calls:
  "submit_overlays s context view_id pictures rects = Inr (s', calls) \<Longrightarrow>
     clipped_rects calls = [] \<and> overlay_placements calls = map placement rects"
proof (induction rects arbitrary: s calls)
  case Nil
  then show ?case by simp
next
  case (Cons r rects)
  from Cons.prems obtain picture frame s1 calls1 calls2 where
    c: "CreateSurfaceIfNeeded s context view_id picture r = (frame, s1, calls1)" and
    r: "submit_overlays s1 context view_id pictures rects = Inr (s', calls2)" and
    e: "calls = calls1 @ Overlay_Submit frame # calls2"
    by (auto split: sum.splits prod.splits)
  from CreateSurfaceIfNeeded_calls [OF c] Cons.IH [OF r] e show ?case by simp
qed

lemma display_views_calls:
  "display_views s context pictures ov views = Inr (s', calls) \<Longrightarrow> overlay_within X ov \<Longrightarrow>
     clipped_rects calls = [] \<and> set (overlay_placements calls) \<subseteq> placement ` X"
proof (induction views arbitrary: s calls)
  case Nil
  then show ?case by simp
next
  case (Cons v views)
  from Cons.prems(1) obtain view_rect rects s1 calls1 calls2 where
    a: "at_key ov v = Inr rects" and
    b: "submit_overlays s context v pictures rects = Inr (s1, calls1)" and
    r: "display_views s1 context pictures ov views = Inr (s', calls2)" and
    e: "calls = FlutterViewOnDisplayPlatformView v (rect_x view_rect) (rect_y view_rect)
                  (rect_width view_rect) (rect_height view_rect) # calls1 @ calls2"
    by (auto split: sum.splits prod.splits)
  have "set rects \<subseteq> X"
    using a Cons.prems(2) by (auto simp: at_key_def overlay_within_def split: option.splits)
  with submit_overlays_calls [OF b] Cons.IH [OF r Cons.prems(2)] e show ?case by auto
qed

subsection \<open>Evaluating concrete frames\<close>

lemma round32_scaled:
  "\<bar>m\<bar> < 2 ^ 24 \<Longrightarrow> - 149 \<le> e \<Longrightarrow> e \<le> 104 \<Longrightarrow>
     round32 (of_int m * power_int 2 e) = Finite (of_int m * power_int 2 e)"
  by (rule round32_representable) (rule representable32_scaled)

lemma round32_quarters: "\<bar>m\<bar> < 2 ^ 24 \<Longrightarrow> round32 (of_int m / 8) = Finite (of_int m / 8)"
  using round32_scaled [of m "- 3"] by simp

lemma round32_far: "round32 3000000000 = Finite 3000000000"
  using round32_scaled [of 11718750 8] by simp

text \<open>The definitions that evaluating \<^verbatim>\<open>SubmitFrame\<close> on a concrete frame unfolds.\<close>

lemmas eval_defs =
  SubmitFrame_def one_view_embedder_def idle_embedder_def some_params_def one_layer_pool_def
  PrerollCompositeEmbeddedView_def Let_def at_key_def insert_new_def GetViewRect_def
  beginRecording_def getInstance_def searchNonOverlappingDrawnRects_def limit_allocations_def
  MakeXYWH_def MakeLTRB_def MakeEmpty_def Make_def rect_x_def rect_y_def rect_width_def
  rect_height_def roundOut_def set_rect_def rounded_out_def CreateSurfaceIfNeeded_def
  GetLayer_def join_def isEmpty_def finite_rect_def recorded_def intersects_def fmin_def
  fmax_def fsub_def SkIntToScalar_def sk_float_floor2int_def sk_float_ceil2int_def
  sk_float_saturate2int_def SK_MaxS32FitsInFloat_def SK_MinS32FitsInFloat_def
  round_numeral_simps

lemma far_rect_is_float: "float_rect (finite_rect (61 / 4) (51 / 2) 3000000000 (123 / 4))"
  using round32_quarters [of 122] round32_quarters [of 204] round32_quarters [of 246]
  by (simp add: float_rect_def finite_rect_def MakeLTRB_def round32_far)

lemma near_rect_is_float: "float_rect (finite_rect (61 / 4) (51 / 2) (145 / 8) (123 / 4))"
  using round32_quarters [of 122] round32_quarters [of 204] round32_quarters [of 246]
    round32_quarters [of 145]
  by (simp add: float_rect_def finite_rect_def MakeLTRB_def)

text \<open>
  C5, as the claim states it, fails. The content drawn over the view reaches to
  \<open>3000000000\<close>, beyond the 32-bit integers that line 134 rounds through. The query
  returns that rectangle of floats, and the rectangle clipped from the background
  ends at \<open>2147483520\<close>: it does not contain the rectangle it was rounded from.
\<close>

theorem SubmitFrame_rounding_saturates:
  "frame_query_results far_embedder no_stale_rect
     = [finite_rect (61 / 4) (51 / 2) 3000000000 (123 / 4)]
   \<and> float_rect (finite_rect (61 / 4) (51 / 2) 3000000000 (123 / 4))
   \<and> clips_submitted (SubmitFrame far_embedder no_stale_rect 0)
       = [finite_rect 15 25 2147483520 31]
   \<and> rounded_out (finite_rect (61 / 4) (51 / 2) 3000000000 (123 / 4))
       = finite_rect 15 25 2147483520 31
   \<and> \<not> contains_rect (finite_rect 15 25 2147483520 31)
         (finite_rect (61 / 4) (51 / 2) 3000000000 (123 / 4))"
proof -
  have a: "frame_query_results far_embedder no_stale_rect
     = [finite_rect (61 / 4) (51 / 2) 3000000000 (123 / 4)]"
    by (simp add: frame_query_results_def slot_query_results_def query_result_def eval_defs
        far_embedder_def drawn_far_def no_stale_rect_def)
  have b: "clips_submitted (SubmitFrame far_embedder no_stale_rect 0)
       = [finite_rect 15 25 2147483520 31]"
    by (simp add: eval_defs far_embedder_def drawn_far_def clipped_rects_def
        no_stale_rect_def clips_submitted_def)
  have r: "rounded_out (finite_rect (61 / 4) (51 / 2) 3000000000 (123 / 4))
       = finite_rect 15 25 2147483520 31"
    by (simp add: eval_defs)
  have c: "\<not> contains_rect (finite_rect 15 25 2147483520 31)
         (finite_rect (61 / 4) (51 / 2) 3000000000 (123 / 4))"
    by (simp add: contains_rect_def finite_rect_def MakeLTRB_def)
  from a far_rect_is_float b r c show ?thesis
    by blast
qed

text \<open>
  C5, amended. Every rectangle that \<^verbatim>\<open>SubmitFrame\<close> clips the background with, and
  every rectangle it places an overlay surface at, is what line 134 makes of a
  rectangle of one of the frame's queries; when the frame is submitted the clip
  rectangles are exactly these, in query order. The rounding goes through a 32-bit
  integer rectangle: the result has integer coordinates, and it contains the rectangle
  it was rounded from whenever that rectangle's left and top are at least
  \<open>-2147483520\<close> and its right and bottom at most \<open>2147483520\<close>.
\<close>

theorem SubmitFrame_rounds_outward:
  assumes "SubmitFrame s joined_rect context = Inr (ok, s', calls)"
  shows "set (clipped_rects calls) \<subseteq> rounded_out ` set (frame_query_results s joined_rect)
     \<and> set (overlay_placements calls)
         \<subseteq> (\<lambda>q. placement (rounded_out q)) ` set (frame_query_results s joined_rect)
     \<and> (\<not> should_run_rasterizer_on_platform_thread s \<longrightarrow>
          clipped_rects calls = map rounded_out (frame_query_results s joined_rect))
     \<and> (\<forall>q. float_rect q \<longrightarrow> integer_aligned (rounded_out q))
     \<and> (\<forall>q. float_rect q \<and> within_int_range q \<longrightarrow> contains_rect (rounded_out q) q)"
proof (cases "should_run_rasterizer_on_platform_thread s")
  case True
  with assms have "calls = []" by (simp add: SubmitFrame_def)
  with True show ?thesis by (simp add: rounded_out_integer_aligned rounded_out_contains)
next
  case False
  with assms obtain pictures ov calls1 calls2 where
    c: "composite_slots s joined_rect [0..<length (composition_order s)] Map.empty Map.empty
          = Inr (pictures, ov, calls1)" and
    d: "display_views s context pictures ov (composition_order s) = Inr (s', calls2)" and
    e: "calls = Background_save # calls1 @ Frame_Submit # calls2 @ [Background_restore]"
    by (auto simp: SubmitFrame_def split: sum.splits prod.splits)
  let ?X = "rounded_out ` set (frame_query_results s joined_rect)"
  have w0: "overlay_within ?X Map.empty"
    by (simp add: overlay_within_def)
  have w: "overlay_within ?X ov"
    by (rule composite_slots_within [OF c w0]) (simp add: frame_query_results_def)
  have p: "placement ` ?X = (\<lambda>q. placement (rounded_out q)) ` set (frame_query_results s joined_rect)"
    by (simp add: image_image)
  from composite_slots_calls [OF c] display_views_calls [OF d w] e False p
  show ?thesis
    by (simp add: frame_query_results_def rounded_out_integer_aligned rounded_out_contains)
qed

theorem SubmitFrame_rounds_outward_witness:
  "SubmitFrame covered_embedder (\<lambda>i j. MakeEmpty) 0 =
     Inr (True, covered_embedder\<lparr>surface_pool := one_layer_pool\<rparr>, covered_calls)
   \<and> \<not> should_run_rasterizer_on_platform_thread covered_embedder
   \<and> frame_query_results covered_embedder (\<lambda>i j. MakeEmpty)
        = [finite_rect (61 / 4) (51 / 2) (145 / 8) (123 / 4)]
   \<and> clipped_rects covered_calls
        = map rounded_out (frame_query_results covered_embedder (\<lambda>i j. MakeEmpty))
   \<and> clipped_rects covered_calls = [finite_rect 15 25 19 31]
   \<and> overlay_placements covered_calls = [(Finite 15, Finite 25, Finite 4, Finite 6)]
   \<and> float_rect (finite_rect (61 / 4) (51 / 2) (145 / 8) (123 / 4))
   \<and> within_int_range (finite_rect (61 / 4) (51 / 2) (145 / 8) (123 / 4))
   \<and> integer_aligned (rounded_out (finite_rect (61 / 4) (51 / 2) (145 / 8) (123 / 4)))
   \<and> contains_rect (rounded_out (finite_rect (61 / 4) (51 / 2) (145 / 8) (123 / 4)))
        (finite_rect (61 / 4) (51 / 2) (145 / 8) (123 / 4))"
proof -
  have a: "SubmitFrame covered_embedder (\<lambda>i j. MakeEmpty) 0 =
     Inr (True, covered_embedder\<lparr>surface_pool := one_layer_pool\<rparr>, covered_calls)"
    by (simp add: eval_defs covered_embedder_def drawn_one_def covered_calls_def)
  have b: "\<not> should_run_rasterizer_on_platform_thread covered_embedder"
    by (simp add: eval_defs covered_embedder_def)
  have c: "frame_query_results covered_embedder (\<lambda>i j. MakeEmpty)
        = [finite_rect (61 / 4) (51 / 2) (145 / 8) (123 / 4)]"
    by (simp add: frame_query_results_def slot_query_results_def query_result_def eval_defs
        covered_embedder_def drawn_one_def)
  have d: "clipped_rects covered_calls = [finite_rect 15 25 19 31]"
    by (simp add: covered_calls_def clipped_rects_def)
  have e: "overlay_placements covered_calls = [(Finite 15, Finite 25, Finite 4, Finite 6)]"
    by (simp add: covered_calls_def overlay_placements_def)
  have f: "within_int_range (finite_rect (61 / 4) (51 / 2) (145 / 8) (123 / 4))"
    by (simp add: within_int_range_def finite_rect_def MakeLTRB_def SK_MinS32FitsInFloat_def
        SK_MaxS32FitsInFloat_def)
  note w = SubmitFrame_rounds_outward [OF a]
  from a b c d e f near_rect_is_float w show ?thesis
    by blast
qed

text \<open>
  C3. Three rectangles are returned for the only query, all inside the view's
  placement rectangle, and \<^verbatim>\<open>kMaxLayerAllocations\<close> is 2, so they are collapsed into
  one. Their union rounds to \<open>(10, 20, 19, 29)\<close>. With the uninitialised
  \<^verbatim>\<open>joined_rect\<close> holding the stale rectangle \<open>(100, 100, 200, 200)\<close>, the one
  rectangle that is clipped and given an overlay is \<open>(10, 20, 200, 200)\<close>: the join
  of the stale rectangle with the three, not their union. Started from an empty
  rectangle, the same frame clips \<open>(10, 20, 19, 29)\<close>.
\<close>

theorem SubmitFrame_joined_rect_uninitialised:
  "kMaxLayerAllocations crowded_embedder
     < length (searchNonOverlappingDrawnRects drawn_three (finite_rect 10 20 70 100))
   \<and> GetViewRect crowded_embedder 7 = Inr (finite_rect 10 20 70 100)
   \<and> rounded_out
        (union_of_rects (searchNonOverlappingDrawnRects drawn_three (finite_rect 10 20 70 100)))
       = finite_rect 10 20 19 29
   \<and> (case SubmitFrame crowded_embedder (\<lambda>i j. finite_rect 100 100 200 200) 0 of
         Inl e \<Rightarrow> []
       | Inr (ok, s', calls) \<Rightarrow> clipped_rects calls) = [finite_rect 10 20 200 200]
   \<and> (case SubmitFrame crowded_embedder (\<lambda>i j. finite_rect 100 100 200 200) 0 of
         Inl e \<Rightarrow> []
       | Inr (ok, s', calls) \<Rightarrow> overlay_placements calls)
       = [(Finite 10, Finite 20, Finite 190, Finite 180)]
   \<and> (case SubmitFrame crowded_embedder (\<lambda>i j. MakeEmpty) 0 of
         Inl e \<Rightarrow> []
       | Inr (ok, s', calls) \<Rightarrow> clipped_rects calls) = [finite_rect 10 20 19 29]"
  by (simp add: eval_defs crowded_embedder_def drawn_three_def union_of_rects_def
      clipped_rects_def overlay_placements_def)

end
